theory Spec2Isabelle
  imports Main "HOL-Library.Char_ord" "HOL-Library.List_Lexorder"
begin

section \<open>Characters and strings\<close>

text \<open>
  Byte strings (module names, paths, emitted Go text) are \<^typ>\<open>string\<close>. The characters
  that cannot be written inside an Isabelle string literal get a name.
\<close>

abbreviation BSL :: char where "BSL \<equiv> CHR 0x5C"
abbreviation DQ :: char where "DQ \<equiv> CHR 0x22"
abbreviation TAB :: char where "TAB \<equiv> CHR 0x09"
abbreviation LF :: char where "LF \<equiv> CHR 0x0A"
abbreviation CR :: char where "CR \<equiv> CHR 0x0D"

text \<open>
  The argument of \<open>go_str\<close> may be a unicode string, whose characters are not bytes:
  \<open>ord(c)\<close> can exceed 255. Such a string is the list of its code points.
\<close>

type_synonym codepoint = nat

section \<open>String literals: \<open>go_str\<close>\<close>

text \<open>
  \<open>string.digits\<close>, \<open>string.letters\<close> (lowercase then uppercase, as in the C locale) and
  \<open>string.punctuation\<close> of the Python 2 standard library.
\<close>

definition digits :: string where
  "digits = ''0123456789''"

definition letters :: string where
  "letters = ''abcdefghijklmnopqrstuvwxyzABCDEFGHIJKLMNOPQRSTUVWXYZ''"

definition punctuation :: string where
  "punctuation =
     ''!'' @ [DQ] @ ''#$%&'' @ [CHR 0x27] @ ''()*+,-./:;<=>?@['' @ [BSL] @ '']^_`{|}~''"

text \<open>\<open>_SIMPLE_CHARS = set(string.digits + string.letters + string.punctuation + " ")\<close>\<close>

definition SIMPLE_CHARS :: "codepoint set" where
  "SIMPLE_CHARS = of_char ` set (digits @ letters @ punctuation @ '' '')"

text \<open>\<open>_ESCAPES\<close>: tab, carriage return, line feed, double quote, backslash.\<close>

definition ESCAPES :: "codepoint \<rightharpoonup> string" where
  "ESCAPES = [9 \<mapsto> [BSL, CHR ''t''], 13 \<mapsto> [BSL, CHR ''r''], 10 \<mapsto> [BSL, CHR ''n''],
              34 \<mapsto> [BSL, DQ], 92 \<mapsto> [BSL, BSL]]"

text \<open>\<open>'{:02x}'.format(n)\<close>: lowercase hexadecimal, padded with zeros to two digits.\<close>

definition hex_digit :: "nat \<Rightarrow> char" where
  "hex_digit d = ''0123456789abcdef'' ! (d mod 16)"

fun format_x :: "nat \<Rightarrow> string" where
  "format_x n = (if n < 16 then [hex_digit n] else format_x (n div 16) @ [hex_digit (n mod 16)])"

definition format_02x :: "nat \<Rightarrow> string" where
  "format_02x n = (let h = format_x n in replicate (2 - length h) (CHR ''0'') @ h)"

text \<open>
  One pass of the loop body of \<open>go_str\<close>: what is written for the character \<open>c\<close>. The
  escape table is looked up first, the pass-through set second. A pass-through character
  is written as it is: it is below 128, so \<^term>\<open>char_of c\<close> is that character.
\<close>

definition go_str_char :: "codepoint \<Rightarrow> string" where
  "go_str_char c =
     (case ESCAPES c of
        Some e \<Rightarrow> e
      | None \<Rightarrow> if c \<in> SIMPLE_CHARS then [char_of c] else [BSL, CHR ''x''] @ format_02x c)"

text \<open>The loop \<open>for c in value\<close>, threading the contents of the \<open>StringIO\<close> buffer.\<close>

fun go_str_loop :: "codepoint list \<Rightarrow> string \<Rightarrow> string" where
  "go_str_loop [] io = io"
| "go_str_loop (c # cs) io = go_str_loop cs (io @ go_str_char c)"

definition go_str :: "codepoint list \<Rightarrow> string" where
  "go_str value = go_str_loop value [DQ] @ [DQ]"

subsection \<open>Reading a literal back\<close>

text \<open>
  The interior of a quoted literal is well escaped when a left-to-right scan finds every
  backslash followed by one of the escape letters and, outside these pairs, no double
  quote, no backslash and no line break. Such an interior cannot close the literal early
  and stays on one line.
\<close>

fun well_escaped :: "string \<Rightarrow> bool" where
  "well_escaped [] = True"
| "well_escaped [c] = (c \<noteq> BSL \<and> c \<noteq> DQ \<and> c \<noteq> LF \<and> c \<noteq> CR)"
| "well_escaped (c # e # cs) =
     (if c = BSL then e \<in> set (''trnx'' @ [DQ, BSL]) \<and> well_escaped cs
      else c \<noteq> DQ \<and> c \<noteq> LF \<and> c \<noteq> CR \<and> well_escaped (e # cs))"

text \<open>
  The standard meaning of the escapes, as the spec's round-trip property reads them: the
  two-character escapes denote tab, carriage return, line feed, double quote and
  backslash, \<open>\xHH\<close> denotes the character with that code, every other character
  denotes itself. A raw double quote, a raw line feed or a dangling backslash is no
  literal interior.
\<close>

definition hex_val :: "char \<Rightarrow> nat option" where
  "hex_val h =
     (if h \<in> set ''0123456789'' then Some (of_char h - 48)
      else if h \<in> set ''abcdef'' then Some (of_char h - 87)
      else if h \<in> set ''ABCDEF'' then Some (of_char h - 55)
      else None)"

fun unescape :: "string \<Rightarrow> codepoint list option" where
  "unescape [] = Some []"
| "unescape (c # cs) =
     (if c = BSL then
        (case cs of
           [] \<Rightarrow> None
         | e # rest \<Rightarrow>
             if e = CHR ''t'' then map_option ((#) 9) (unescape rest)
             else if e = CHR ''r'' then map_option ((#) 13) (unescape rest)
             else if e = CHR ''n'' then map_option ((#) 10) (unescape rest)
             else if e = DQ then map_option ((#) 34) (unescape rest)
             else if e = BSL then map_option ((#) 92) (unescape rest)
             else if e = CHR ''x'' then
               (case rest of
                  h1 # h2 # rest' \<Rightarrow>
                    (case (hex_val h1, hex_val h2) of
                       (Some a, Some b) \<Rightarrow> map_option ((#) (16 * a + b)) (unescape rest')
                     | _ \<Rightarrow> None)
                | _ \<Rightarrow> None)
             else None)
      else if c = DQ \<or> c = LF then None
      else map_option ((#) (of_char c)) (unescape cs))"

text \<open>The number that a string of hexadecimal digits denotes.\<close>

definition hex_number :: "string \<Rightarrow> nat option" where
  "hex_number hs =
     (if hs \<noteq> [] \<and> list_all (\<lambda>h. hex_val h \<noteq> None) hs
      then Some (foldl (\<lambda>a h. 16 * a + the (hex_val h)) 0 hs)
      else None)"

section \<open>Python built-ins used by the module\<close>

text \<open>\<open>s.split(sep)\<close> for a separator of one character: never an empty list.\<close>

fun str_split :: "char \<Rightarrow> string \<Rightarrow> string list" where
  "str_split sep [] = [[]]"
| "str_split sep (c # cs) =
     (if c = sep then [] # str_split sep cs
      else (case str_split sep cs of p # ps \<Rightarrow> (c # p) # ps | [] \<Rightarrow> [[c]]))"

text \<open>\<open>s.count(c)\<close>, \<open>s.startswith(p)\<close>, \<open>s.endswith(p)\<close>.\<close>

definition str_count :: "string \<Rightarrow> char \<Rightarrow> int" where
  "str_count s c = int (length (filter (\<lambda>x. x = c) s))"

definition startswith :: "string \<Rightarrow> string \<Rightarrow> bool" where
  "startswith s p = (take (length p) s = p)"

definition endswith :: "string \<Rightarrow> string \<Rightarrow> bool" where
  "endswith s p = (length p \<le> length s \<and> drop (length s - length p) s = p)"

text \<open>\<open>str(i)\<close> for an integer.\<close>

definition dec_digit :: "nat \<Rightarrow> char" where
  "dec_digit d = ''0123456789'' ! (d mod 10)"

fun str_nat :: "nat \<Rightarrow> string" where
  "str_nat n = (if n < 10 then [dec_digit n] else str_nat (n div 10) @ [dec_digit (n mod 10)])"

definition str_int :: "int \<Rightarrow> string" where
  "str_int i = (if i < 0 then CHR ''-'' # str_nat (nat (- i)) else str_nat (nat i))"

text \<open>
  Truth value of an optional string in a condition (\<open>if x:\<close>, \<open>x or y\<close>): \<open>None\<close> and the
  empty string are false.
\<close>

definition truthy :: "string option \<Rightarrow> bool" where
  "truthy x = (case x of None \<Rightarrow> False | Some s \<Rightarrow> s \<noteq> [])"

text \<open>A raised exception that is not one of the module's own, with its message.\<close>

datatype exception = Exception string

section \<open>The \<open>Writer\<close> class\<close>

text \<open>
  \<open>out\<close> is the text written so far, as the bytes the UTF-8 stream writer hands to the
  underlying buffer; \<open>indent_level\<close> is a Python integer.
\<close>

record Writer =
  out :: string
  indent_level :: int

definition Writer_init :: Writer where
  "Writer_init = \<lparr>out = [], indent_level = 0\<rparr>"

definition getvalue :: "Writer \<Rightarrow> string" where
  "getvalue self = out self"

definition indent :: "int \<Rightarrow> Writer \<Rightarrow> Writer" where
  "indent n self = self\<lparr>indent_level := indent_level self + n\<rparr>"

definition dedent :: "int \<Rightarrow> Writer \<Rightarrow> Writer" where
  "dedent n self = self\<lparr>indent_level := indent_level self - n\<rparr>"

text \<open>
  \<open>indent_block\<close> is a generator wrapped by \<open>contextlib.contextmanager\<close>: entering the
  \<open>with\<close> statement runs it up to the \<open>yield\<close>, a normal end of the body resumes it after
  the \<open>yield\<close>, and an exception leaving the body is thrown into the generator at the
  \<open>yield\<close>. The generator has no \<open>try\<close> around the \<open>yield\<close>, so the exception leaves it
  at once and \<open>self.dedent(n)\<close> does not run. The body is a state transformer that also
  says whether it raised; the writer it returns is the writer at that moment.
\<close>

definition indent_block ::
    "int \<Rightarrow> (Writer \<Rightarrow> Writer \<times> exception option) \<Rightarrow> Writer \<Rightarrow> Writer \<times> exception option" where
  "indent_block n body self =
     (case body (indent n self) of
        (self', None) \<Rightarrow> (dedent n self', None)
      | (self', Some e) \<Rightarrow> (self', Some e))"

text \<open>A body that cannot raise.\<close>

definition returns :: "(Writer \<Rightarrow> Writer) \<Rightarrow> Writer \<Rightarrow> Writer \<times> exception option" where
  "returns f self = (f self, None)"

text \<open>
  \<open>write\<close>: \<open>''.join(('\t' * self.indent_level, line, '\n'))\<close> for every non-empty line;
  \<open>'\t' * n\<close> is empty for \<open>n \<le> 0\<close>.
\<close>

definition line_text :: "int \<Rightarrow> string \<Rightarrow> string" where
  "line_text level line = replicate (nat level) TAB @ line @ [LF]"

definition write_line :: "string \<Rightarrow> Writer \<Rightarrow> Writer" where
  "write_line line self =
     (if line \<noteq> [] then self\<lparr>out := out self @ line_text (indent_level self) line\<rparr> else self)"

definition "write" :: "string \<Rightarrow> Writer \<Rightarrow> Writer" where
  "write output self = fold write_line (str_split LF output) self"

text \<open>
  The Greek letter pi of the generated identifiers, in UTF-8, and the fixed lines of
  \<open>write_block\<close>.
\<close>

definition PI :: string where
  "PI = [CHR 0xCF, CHR 0x80]"

definition line_var_E :: string where
  "line_var_E = ''var '' @ PI @ ''E *'' @ PI @ ''g.BaseException; _ = '' @ PI @ ''E''"

definition line_for :: string where
  "line_for = ''for ; '' @ PI @ ''F.State() >= 0; '' @ PI @ ''F.PopCheckpoint() {''"

definition line_switch :: string where
  "line_switch = ''switch '' @ PI @ ''F.State() {''"

definition line_default :: string where
  "line_default = ''default: panic('' @ [DQ] @ ''unexpected function state'' @ [DQ] @ '')''"

definition line_return_E :: string where
  "line_return_E = ''return nil, '' @ PI @ ''E''"

text \<open>
  \<open>self.write_tmpl('case $state: goto Label$state', state=checkpoint)\<close>: the template
  with both placeholders replaced by \<open>str(checkpoint)\<close>.
\<close>

definition case_goto :: "int \<Rightarrow> string" where
  "case_goto state = ''case '' @ str_int state @ '': goto Label'' @ str_int state"

definition write_tmpl_case_goto :: "int \<Rightarrow> Writer \<Rightarrow> Writer" where
  "write_tmpl_case_goto state self = write (case_goto state) self"

text \<open>The part of a \<open>Block\<close> object that \<open>write_block\<close> reads: its checkpoints, in iteration order.\<close>

record Block =
  checkpoints :: "int list"

definition write_block :: "Block \<Rightarrow> string \<Rightarrow> Writer \<Rightarrow> Writer" where
  "write_block block body self =
     (let self = write line_var_E self;
          self = write line_for self;
          self = fst (indent_block 1 (returns (\<lambda>self.
                   let self = write line_switch self;
                       self = write ''case 0:'' self;
                       self = fold write_tmpl_case_goto (checkpoints block) self;
                       self = write line_default self;
                       self = write ''}'' self;
                       self = fst (indent_block (- 1) (returns (write body)) self);
                       self = write ''return nil, nil'' self
                   in self)) self);
          self = write ''}'' self;
          self = write line_return_E self
      in self)"

text \<open>
  \<open>write_import_block\<close>. The dictionary \<open>imports\<close> is the list of its items in insertion
  order (the keys are distinct); an item is the absolute module name and the \<open>alias\<close>
  attribute of its value. \<open>sorted(imports)\<close> sorts the keys; \<open>imports[name]\<close> cannot
  fail for a name taken from the keys, so the lookup has no error branch.
\<close>

definition import_entry :: "(string \<times> string) list \<Rightarrow> string \<Rightarrow> string" where
  "import_entry imports name =
     (case map_of imports name of Some alias \<Rightarrow> alias | None \<Rightarrow> []) @ '' '' @ [DQ] @ name @ [DQ]"

definition write_import_block :: "(string \<times> string) list \<Rightarrow> Writer \<Rightarrow> Writer" where
  "write_import_block imports self =
     (if imports = [] then self
      else
        let self = write ''import ('' self;
            self = fst (indent_block 1 (returns
                     (fold (\<lambda>name. write (import_entry imports name)) (sort (map fst imports))))
                     self);
            self = write '')'' self
        in self)"

definition write_label :: "int \<Rightarrow> Writer \<Rightarrow> Writer" where
  "write_label label self =
     fst (indent_block (- 1) (returns (write (''Label'' @ str_int label @ '':''))) self)"

text \<open>
  Client code of a writer, as far as the indentation is concerned: a region body is a
  sequence of statements, each a call of \<open>write\<close>, a nested \<open>with indent_block(n):\<close>
  region, a \<open>try: ... except Exception: ...\<close> statement, or a statement that raises.
  \<open>exec_body\<close> runs a body the way Python does: the first exception ends it, and a
  \<open>try\<close> statement runs its handler on the writer as the exception left it.
\<close>

datatype stmt =
    Write string
  | With_indent_block int "stmt list"
  | Try_except "stmt list" "stmt list"
  | Raise exception

fun exec :: "stmt \<Rightarrow> Writer \<Rightarrow> Writer \<times> exception option"
  and exec_body :: "stmt list \<Rightarrow> Writer \<Rightarrow> Writer \<times> exception option" where
  "exec (Write output) self = (write output self, None)"
| "exec (With_indent_block n body) self = indent_block n (\<lambda>self'. exec_body body self') self"
| "exec (Try_except body handler) self =
     (case exec_body body self of
        (self', None) \<Rightarrow> (self', None)
      | (self', Some e) \<Rightarrow> exec_body handler self')"
| "exec (Raise e) self = (self, Some e)"
| "exec_body [] self = (self, None)"
| "exec_body (s # ss) self =
     (case exec s self of
        (self', None) \<Rightarrow> exec_body ss self'
      | (self', Some e) \<Rightarrow> (self', Some e))"

text \<open>A body in which no statement raises, at any depth of nesting.\<close>

fun raise_free :: "stmt \<Rightarrow> bool"
  and raise_free_body :: "stmt list \<Rightarrow> bool" where
  "raise_free (Write output) = True"
| "raise_free (With_indent_block n body) = raise_free_body body"
| "raise_free (Try_except body handler) = (raise_free_body body \<and> raise_free_body handler)"
| "raise_free (Raise e) = False"
| "raise_free_body [] = True"
| "raise_free_body (s # ss) = (raise_free s \<and> raise_free_body ss)"

text \<open>
  What one call of \<open>write\<close> appends at a given depth: every non-empty line of the
  argument, indented and ended by a line feed.
\<close>

definition rendered :: "int \<Rightarrow> string \<Rightarrow> string" where
  "rendered level output =
     concat (map (line_text level) (filter (\<lambda>line. line \<noteq> []) (str_split LF output)))"

section \<open>Module resolution: the \<open>Path\<close> class\<close>

text \<open>
  The functions of \<open>os.path\<close> that the module calls, as \<open>posixpath\<close> defines them
  (\<open>os.sep\<close> is \<open>/\<close>, \<open>os.pathsep\<close> is \<open>:\<close>). \<open>os.path.isfile\<close> reads the file system: it
  is a parameter, the set of paths that are regular files.
\<close>

definition path_join :: "string \<Rightarrow> string \<Rightarrow> string" where
  "path_join a b =
     (if startswith b ''/'' then b
      else if a = [] \<or> endswith a ''/'' then a @ b
      else a @ ''/'' @ b)"

text \<open>\<open>s.rfind(c) + 1\<close>: the length of the part up to and including the last \<open>c\<close>, 0 without one.\<close>

definition rfind_end :: "string \<Rightarrow> char \<Rightarrow> nat" where
  "rfind_end s c = length s - length (takeWhile (\<lambda>x. x \<noteq> c) (rev s))"

definition rstrip :: "char \<Rightarrow> string \<Rightarrow> string" where
  "rstrip c s = rev (dropWhile (\<lambda>x. x = c) (rev s))"

definition path_split :: "string \<Rightarrow> string \<times> string" where
  "path_split p =
     (let i = rfind_end p (CHR ''/'');
          head = take i p;
          tail = drop i p
      in (if head \<noteq> [] \<and> head \<noteq> replicate (length head) (CHR ''/'')
          then rstrip (CHR ''/'') head else head, tail))"

text \<open>\<open>name.replace('.', os.sep)\<close>\<close>

definition dots_to_sep :: "string \<Rightarrow> string" where
  "dots_to_sep name = map (\<lambda>c. if c = CHR ''.'' then CHR ''/'' else c) name"

record Path =
  dirs :: "string list"
  package_dir :: "string option"
  package_name :: "string option"

definition Path_init :: "(string \<Rightarrow> bool) \<Rightarrow> string \<Rightarrow> string \<Rightarrow> string \<Rightarrow> Path" where
  "Path_init isfile gopath modname script =
     (let dirs = (if gopath \<noteq> []
                  then map (\<lambda>d. path_join (path_join d ''src'') ''__python__'')
                         (str_split (CHR '':'') gopath)
                  else []);
          (dirname, basename) = path_split script
      in if basename = ''__init__.py''
         then \<lparr>dirs = dirs, package_dir = Some dirname, package_name = Some modname\<rparr>
         else if CHR ''.'' \<in> set modname \<and> isfile (path_join dirname ''__init__.py'')
         then \<lparr>dirs = dirs, package_dir = Some dirname,
                package_name = Some (take (rfind_end modname (CHR ''.'') - 1) modname)\<rparr>
         else \<lparr>dirs = dirs, package_dir = None, package_name = None\<rparr>)"

definition find_script :: "(string \<Rightarrow> bool) \<Rightarrow> string \<Rightarrow> string \<Rightarrow> string option" where
  "find_script isfile dirname name =
     (let prefix = path_join dirname (dots_to_sep name);
          script = prefix @ ''.py''
      in if isfile script then Some script
         else let script = path_join prefix ''__init__.py''
              in if isfile script then Some script else None)"

text \<open>The loop \<open>for dirname in self.dirs\<close> of \<open>resolve_import\<close>.\<close>

fun resolve_in_dirs ::
    "(string \<Rightarrow> bool) \<Rightarrow> string list \<Rightarrow> string \<Rightarrow> string option \<times> string option" where
  "resolve_in_dirs isfile [] modname = (None, None)"
| "resolve_in_dirs isfile (dirname # rest) modname =
     (case find_script isfile dirname modname of
        Some script \<Rightarrow> (Some modname, Some script)
      | None \<Rightarrow> resolve_in_dirs isfile rest modname)"

text \<open>
  \<open>'{}.{}'.format(self.package_name, modname)\<close>; a \<open>package_name\<close> that is \<open>None\<close> would
  be formatted as the word \<open>None\<close>.
\<close>

definition format_dotted :: "string option \<Rightarrow> string \<Rightarrow> string" where
  "format_dotted package modname =
     (case package of None \<Rightarrow> ''None'' | Some n \<Rightarrow> n) @ ''.'' @ modname"

text \<open>
  \<open>resolve_import\<close>. \<open>if self.package_dir:\<close> is false for \<open>None\<close> and for the empty
  string; \<open>if script:\<close> is true for every script found, which ends in \<open>.py\<close>.
\<close>

definition resolve_import ::
    "(string \<Rightarrow> bool) \<Rightarrow> Path \<Rightarrow> string \<Rightarrow> string option \<times> string option" where
  "resolve_import isfile self modname =
     (case (if truthy (package_dir self)
            then find_script isfile (the (package_dir self)) modname else None) of
        Some script \<Rightarrow> (Some (format_dotted (package_name self) modname), Some script)
      | None \<Rightarrow> resolve_in_dirs isfile (dirs self) modname)"

section \<open>Imports and the \<open>ImportVisitor\<close>\<close>

definition NATIVE_MODULE_PREFIX :: string where
  "NATIVE_MODULE_PREFIX = ''__go__.''"

text \<open>
  \<open>CompileError\<close> and its two subclasses; the argument is the message of the exception,
  which \<open>CompileError.__init__\<close> prefixes with the line when the node has a \<open>lineno\<close>.
\<close>

datatype CompileError = ParseError string | ImportError string

definition CompileError_msg :: "int option \<Rightarrow> string \<Rightarrow> string" where
  "CompileError_msg lineno msg =
     (case lineno of Some n \<Rightarrow> ''line '' @ str_int n @ '': '' @ msg | None \<Rightarrow> msg)"

text \<open>
  A binding is the named tuple \<open>(bind_type, alias, value)\<close>; the value is an integer for
  a module binding and the name of the member for a member binding.
\<close>

datatype BindType = MODULE | MEMBER

datatype BindValue = Index int | Member string

datatype Binding = Binding (bind_type: BindType) (bind_alias: string) (bind_value: BindValue)

record Import =
  name :: string
  is_native :: bool
  bindings :: "Binding list"

definition Import_init :: "string \<Rightarrow> bool \<Rightarrow> Import" where
  "Import_init n native = \<lparr>name = n, is_native = native, bindings = []\<rparr>"

definition add_binding :: "BindType \<Rightarrow> string \<Rightarrow> BindValue \<Rightarrow> Import \<Rightarrow> Import" where
  "add_binding bt al v self = self\<lparr>bindings := bindings self @ [Binding bt al v]\<rparr>"

text \<open>
  The syntax nodes the visitor reads: an \<open>alias\<close> node has a name and an optional
  \<open>asname\<close>; an \<open>Import\<close> statement has its names and, when the node has the attribute,
  a line number; an \<open>ImportFrom\<close> statement has a module in addition.
\<close>

datatype alias_node = Alias (alias_name: string) (asname: "string option")

record stmt_Import =
  lineno :: "int option"
  names :: "alias_node list"

record stmt_ImportFrom = stmt_Import +
  module :: string

text \<open>
  The state of an \<open>ImportVisitor\<close>: the list \<open>imports\<close>. The second field is not in the
  source: \<open>lookups\<close> records the argument of every call of \<open>self.path.resolve_import\<close>,
  in order, so that statements about when the resolver is consulted can be made. The
  path object and the file system do not change during a visit and are parameters.
\<close>

record ImportVisitor =
  "imports" :: "Import list"
  lookups :: "string list"

definition ImportVisitor_init :: ImportVisitor where
  "ImportVisitor_init = \<lparr>imports = [], lookups = []\<rparr>"

text \<open>A call \<open>self.path.resolve_import(name)\<close> made by the visitor.\<close>

definition path_resolve_import ::
    "(string \<Rightarrow> bool) \<Rightarrow> Path \<Rightarrow> string \<Rightarrow> ImportVisitor \<Rightarrow>
     (string option \<times> string option) \<times> ImportVisitor" where
  "path_resolve_import isfile path n self =
     (resolve_import isfile path n, self\<lparr>lookups := lookups self @ [n]\<rparr>)"

text \<open>\<open>ImportVisitor._resolve_import\<close>: \<open>if not full_name\<close> holds for \<open>None\<close> and for the empty string.\<close>

definition visitor_resolve_import ::
    "(string \<Rightarrow> bool) \<Rightarrow> Path \<Rightarrow> int option \<Rightarrow> string \<Rightarrow> ImportVisitor \<Rightarrow>
     (CompileError + Import) \<times> ImportVisitor" where
  "visitor_resolve_import isfile path node_lineno n self =
     (case path_resolve_import isfile path n self of
        ((full_name, script), self') \<Rightarrow>
          if \<not> truthy full_name
          then (Inl (ImportError (CompileError_msg node_lineno (''no such module: '' @ n))), self')
          else (Inr (Import_init (the full_name) False), self'))"

text \<open>\<open>alias.asname or alias.name\<close>\<close>

definition asname_or_name :: "alias_node \<Rightarrow> string" where
  "asname_or_name a = (if truthy (asname a) then the (asname a) else alias_name a)"

definition native_syntax_msg :: string where
  "native_syntax_msg =
     ''for native imports use '' @ [DQ] @ ''from __go__.xyz import ...'' @ [DQ] @ '' syntax''"

text \<open>
  The binding that \<open>visit_Import\<close> adds to the resolved import: the two branches of
  \<open>if alias.asname\<close>. \<open>parts[-1]\<close> is the last element of a list that \<open>split\<close> never
  returns empty.
\<close>

definition bind_module :: "alias_node \<Rightarrow> Import \<Rightarrow> Import" where
  "bind_module a imp =
     (if truthy (asname a)
      then add_binding MODULE (the (asname a)) (Index (str_count (name imp) (CHR ''.''))) imp
      else
        let parts = str_split (CHR ''.'') (alias_name a)
        in add_binding MODULE (last parts)
             (Index (str_count (name imp) (CHR ''.'') - int (length parts) + 1)) imp)"

text \<open>
  \<open>visit_Import\<close>: the loop over \<open>node.names\<close>. The result is the visitor as the call
  leaves it and the exception raised, if any.
\<close>

fun visit_Import_loop ::
    "(string \<Rightarrow> bool) \<Rightarrow> Path \<Rightarrow> int option \<Rightarrow> alias_node list \<Rightarrow> ImportVisitor \<Rightarrow>
     ImportVisitor \<times> CompileError option" where
  "visit_Import_loop isfile path ln [] self = (self, None)"
| "visit_Import_loop isfile path ln (a # rest) self =
     (if startswith (alias_name a) NATIVE_MODULE_PREFIX
      then (self, Some (ImportError (CompileError_msg ln native_syntax_msg)))
      else
        (case visitor_resolve_import isfile path ln (alias_name a) self of
           (Inl err, self') \<Rightarrow> (self', Some err)
         | (Inr imp, self') \<Rightarrow>
             visit_Import_loop isfile path ln rest
               (self'\<lparr>imports := imports self' @ [bind_module a imp]\<rparr>)))"

definition visit_Import ::
    "(string \<Rightarrow> bool) \<Rightarrow> Path \<Rightarrow> 'a stmt_Import_scheme \<Rightarrow> ImportVisitor \<Rightarrow>
     ImportVisitor \<times> CompileError option" where
  "visit_Import isfile path node self = visit_Import_loop isfile path (lineno node) (names node) self"

text \<open>
  \<open>visit_ImportFrom\<close>, the native branch: one \<open>Import\<close> object receives a member
  binding per name and is appended afterwards.
\<close>

fun native_bindings_loop :: "alias_node list \<Rightarrow> Import \<Rightarrow> Import" where
  "native_bindings_loop [] imp = imp"
| "native_bindings_loop (a # rest) imp =
     native_bindings_loop rest (add_binding MEMBER (asname_or_name a) (Member (alias_name a)) imp)"

text \<open>
  \<open>visit_ImportFrom\<close>, the last loop. \<open>member_imp\<close> is \<open>None\<close> or the object that was
  appended to \<open>self.imports\<close> when the first plain member was met; the later
  \<open>member_imp.add_binding\<close> changes that very object inside the list. The variable is
  therefore the position of the object in \<open>imports\<close>, and \<open>add_binding\<close> updates the list
  at that position. \<open>if not member_imp\<close> is true only for \<open>None\<close>: an \<open>Import\<close> object is
  never false.
\<close>

fun visit_ImportFrom_loop ::
    "(string \<Rightarrow> bool) \<Rightarrow> Path \<Rightarrow> int option \<Rightarrow> string \<Rightarrow> alias_node list \<Rightarrow> nat option \<Rightarrow>
     ImportVisitor \<Rightarrow> ImportVisitor \<times> CompileError option" where
  "visit_ImportFrom_loop isfile path ln m [] member_imp self = (self, None)"
| "visit_ImportFrom_loop isfile path ln m (a # rest) member_imp self =
     (case path_resolve_import isfile path (m @ ''.'' @ alias_name a) self of
        ((full_name, script), self1) \<Rightarrow>
          if truthy full_name
          then
            let imp = Import_init (the full_name) False;
                imp = add_binding MODULE (asname_or_name a)
                        (Index (str_count (name imp) (CHR ''.''))) imp
            in visit_ImportFrom_loop isfile path ln m rest member_imp
                 (self1\<lparr>imports := imports self1 @ [imp]\<rparr>)
          else
            (case member_imp of
               None \<Rightarrow>
                 (case visitor_resolve_import isfile path ln m self1 of
                    (Inl err, self2) \<Rightarrow> (self2, Some err)
                  | (Inr imp, self2) \<Rightarrow>
                      let i = length (imports self2);
                          self3 = self2\<lparr>imports := imports self2 @ [imp]\<rparr>;
                          self4 = self3\<lparr>imports := (imports self3)
                                    [i := add_binding MEMBER (asname_or_name a)
                                            (Member (alias_name a)) (imports self3 ! i)]\<rparr>
                      in visit_ImportFrom_loop isfile path ln m rest (Some i) self4)
             | Some i \<Rightarrow>
                 visit_ImportFrom_loop isfile path ln m rest (Some i)
                   (self1\<lparr>imports := (imports self1)
                      [i := add_binding MEMBER (asname_or_name a)
                              (Member (alias_name a)) (imports self1 ! i)]\<rparr>)))"

definition wildcard_msg :: "string \<Rightarrow> string" where
  "wildcard_msg m = ''wildcard member import is not implemented: from '' @ m @ '' import *''"

definition visit_ImportFrom ::
    "(string \<Rightarrow> bool) \<Rightarrow> Path \<Rightarrow> 'a stmt_ImportFrom_scheme \<Rightarrow> ImportVisitor \<Rightarrow>
     ImportVisitor \<times> CompileError option" where
  "visit_ImportFrom isfile path node self =
     (if list_ex (\<lambda>a. alias_name a = ''*'') (names node)
      then (self, Some (ImportError (CompileError_msg (lineno node) (wildcard_msg (module node)))))
      else if module node = ''__future__'' then (self, None)
      else if startswith (module node) NATIVE_MODULE_PREFIX
      then
        let imp = Import_init (drop (length NATIVE_MODULE_PREFIX) (module node)) True;
            imp = native_bindings_loop (names node) imp
        in (self\<lparr>imports := imports self @ [imp]\<rparr>, None)
      else visit_ImportFrom_loop isfile path (lineno node) (module node) (names node) None self)"

subsection \<open>The from-import as the specification words it\<close>

text \<open>
  The specification of a from-import that is neither native nor a wildcard nor the
  future pseudo-module, in its own words: a name \<open>n\<close> is a submodule when the resolver
  finds \<open>m.n\<close>; a submodule gives a standalone import of the resolved name with one module
  binding; the other names are members and share one import of \<open>m\<close>, which stands where
  the first member is met and carries one member binding per member, in order.
\<close>

definition is_submodule :: "(string \<Rightarrow> bool) \<Rightarrow> Path \<Rightarrow> string \<Rightarrow> alias_node \<Rightarrow> bool" where
  "is_submodule isfile path m a =
     truthy (fst (resolve_import isfile path (m @ ''.'' @ alias_name a)))"

definition submodule_import ::
    "(string \<Rightarrow> bool) \<Rightarrow> Path \<Rightarrow> string \<Rightarrow> alias_node \<Rightarrow> Import" where
  "submodule_import isfile path m a =
     (let full_name = the (fst (resolve_import isfile path (m @ ''.'' @ alias_name a)))
      in \<lparr>name = full_name, is_native = False,
          bindings = [Binding MODULE (asname_or_name a) (Index (str_count full_name (CHR ''.'')))]\<rparr>)"

definition member_binding :: "alias_node \<Rightarrow> Binding" where
  "member_binding a = Binding MEMBER (asname_or_name a) (Member (alias_name a))"

definition member_import ::
    "(string \<Rightarrow> bool) \<Rightarrow> Path \<Rightarrow> string \<Rightarrow> alias_node list \<Rightarrow> Import" where
  "member_import isfile path m nms =
     \<lparr>name = the (fst (resolve_import isfile path m)), is_native = False,
      bindings = map member_binding (filter (\<lambda>a. \<not> is_submodule isfile path m a) nms)\<rparr>"

definition spec_from_imports ::
    "(string \<Rightarrow> bool) \<Rightarrow> Path \<Rightarrow> string \<Rightarrow> alias_node list \<Rightarrow> Import list" where
  "spec_from_imports isfile path m nms =
     map (submodule_import isfile path m) (takeWhile (is_submodule isfile path m) nms) @
     (case dropWhile (is_submodule isfile path m) nms of
        [] \<Rightarrow> []
      | first_member # later \<Rightarrow>
          member_import isfile path m nms #
          map (submodule_import isfile path m) (filter (is_submodule isfile path m) later))"

text \<open>The resolver calls the specification allows: one probe per name, and \<open>m\<close> once, after the probe of the first member.\<close>

definition spec_from_lookups ::
    "(string \<Rightarrow> bool) \<Rightarrow> Path \<Rightarrow> string \<Rightarrow> alias_node list \<Rightarrow> string list" where
  "spec_from_lookups isfile path m nms =
     map (\<lambda>a. m @ ''.'' @ alias_name a) (takeWhile (is_submodule isfile path m) nms) @
     (case dropWhile (is_submodule isfile path m) nms of
        [] \<Rightarrow> []
      | first_member # later \<Rightarrow>
          (m @ ''.'' @ alias_name first_member) # m # map (\<lambda>a. m @ ''.'' @ alias_name a) later)"

subsection \<open>A file system for the examples\<close>

text \<open>
  A search path root \<open>/go\<close> with a package \<open>a\<close> holding \<open>a.b.c\<close>, a package \<open>pkg\<close> with a
  submodule, and a top-level module \<open>sub2\<close>; and a working directory \<open>/w\<close> with a package
  \<open>pkg\<close> that has a module \<open>sub2\<close> of its own.
\<close>

definition example_files :: "string \<Rightarrow> bool" where
  "example_files p \<longleftrightarrow>
     p \<in> set [''/go/src/__python__/a/__init__.py'',
              ''/go/src/__python__/a/b/__init__.py'',
              ''/go/src/__python__/a/b/c.py'',
              ''/go/src/__python__/pkg/__init__.py'',
              ''/go/src/__python__/pkg/submod.py'',
              ''/go/src/__python__/sub2.py'',
              ''/w/pkg/__init__.py'',
              ''/w/pkg/sub2.py'']"

definition example_path :: Path where
  "example_path = Path_init example_files ''/go'' ''__main__'' ''/w/main.py''"

text \<open>
  A package compiled from inside its own directory: the working directory holds the
  package initializer and the modules \<open>sub\<close> and \<open>sub2\<close> of the package, the script is named
  without a directory part, and the search path has another module \<open>sub2\<close>.
\<close>

definition bare_script_files :: "string \<Rightarrow> bool" where
  "bare_script_files p \<longleftrightarrow>
     p \<in> set [''__init__.py'', ''sub.py'', ''sub2.py'', ''/go/src/__python__/sub2.py'']"

section \<open>Properties of module resolution\<close>

lemma resolve_in_dirs_first:
  assumes "i < length ds" and "find_script isfile (ds ! i) modname = Some script"
    and "\<forall>j<i. find_script isfile (ds ! j) modname = None"
  shows "resolve_in_dirs isfile ds modname = (Some modname, Some script)"
  using assms
proof (induction ds arbitrary: i)
  case Nil
  then show ?case by simp
next
  case (Cons d ds)
  show ?case
  proof (cases i)
    case 0
    with Cons.prems show ?thesis by simp
  next
    case (Suc k)
    with Cons.prems have "find_script isfile d modname = None" by auto
    moreover have "resolve_in_dirs isfile ds modname = (Some modname, Some script)"
    proof (rule Cons.IH [of k])
      show "k < length ds" using Cons.prems Suc by simp
      show "find_script isfile (ds ! k) modname = Some script" using Cons.prems Suc by simp
      show "\<forall>j<k. find_script isfile (ds ! j) modname = None"
      proof (intro allI impI)
        fix j assume "j < k"
        then have "Suc j < i" using Suc by simp
        with Cons.prems(3) have "find_script isfile ((d # ds) ! Suc j) modname = None" by blast
        then show "find_script isfile (ds ! j) modname = None" by simp
      qed
    qed
    ultimately show ?thesis by simp
  qed
qed

lemma resolve_in_dirs_none:
  "\<forall>d\<in>set ds. find_script isfile d modname = None \<Longrightarrow>
     resolve_in_dirs isfile ds modname = (None, None)"
  by (induction ds) simp_all

lemma resolve_import_package:
  assumes "package_dir self = Some d" and "d \<noteq> []" and "package_name self = Some pn"
    and "find_script isfile d modname = Some script"
  shows "resolve_import isfile self modname = (Some (pn @ ''.'' @ modname), Some script)"
  using assms by (simp add: resolve_import_def truthy_def format_dotted_def)

lemma resolve_import_search:
  assumes "\<not> truthy (package_dir self) \<or> find_script isfile (the (package_dir self)) modname = None"
  shows "resolve_import isfile self modname = resolve_in_dirs isfile (dirs self) modname"
  using assms by (auto simp: resolve_import_def)

lemma find_script_cases:
  "find_script isfile d modname =
     (if isfile (path_join d (dots_to_sep modname) @ ''.py'')
      then Some (path_join d (dots_to_sep modname) @ ''.py'')
      else if isfile (path_join (path_join d (dots_to_sep modname)) ''__init__.py'')
      then Some (path_join (path_join d (dots_to_sep modname)) ''__init__.py'')
      else None)"
  by (simp add: find_script_def Let_def)

lemma Path_init_dirs:
  "dirs (Path_init isfile gopath this script0) =
     (if gopath = [] then []
      else map (\<lambda>root. path_join (path_join root ''src'') ''__python__'')
             (str_split (CHR '':'') gopath))"
  by (simp add: Path_init_def Let_def split: prod.splits)

lemma resolve_import_empty_package_dir:
  "package_dir self = Some [] \<Longrightarrow>
     resolve_import isfile self modname = resolve_in_dirs isfile (dirs self) modname"
  by (simp add: resolve_import_def truthy_def)

subsection \<open>The example file system\<close>

lemma path_pkg:
  "Path_init example_files ''/go'' ''pkg.sub'' ''/w/pkg/sub.py'' =
     \<lparr>dirs = [''/go/src/__python__''], package_dir = Some ''/w/pkg'', package_name = Some ''pkg''\<rparr>"
  by (simp add: Path_init_def path_split_def rfind_end_def rstrip_def path_join_def
      startswith_def endswith_def example_files_def Let_def)

lemma path_main:
  "example_path = \<lparr>dirs = [''/go/src/__python__''], package_dir = None, package_name = None\<rparr>"
  by (simp add: example_path_def Path_init_def path_split_def rfind_end_def rstrip_def path_join_def
      startswith_def endswith_def example_files_def Let_def)

lemma fs1: "find_script example_files ''/w/pkg'' ''sub2'' = Some ''/w/pkg/sub2.py''"
  by (simp add: find_script_def path_join_def startswith_def endswith_def example_files_def
      dots_to_sep_def Let_def)


lemma fs2: "find_script example_files ''/go/src/__python__'' ''sub2'' = Some ''/go/src/__python__/sub2.py''"
  by (simp add: find_script_def path_join_def startswith_def endswith_def example_files_def
      dots_to_sep_def Let_def)

lemma fs3: "find_script example_files ''/go/src/__python__'' ''nothing'' = None"
  by (simp add: find_script_def path_join_def startswith_def endswith_def example_files_def
      dots_to_sep_def Let_def)

subsection \<open>Order of resolution\<close>

text \<open>
  What \<open>resolve_import\<close> does, for every module name \<open>modname\<close> and every path object:
  \<^item> when the object has recorded a package directory that is not the empty string, and
    the package name, and the module is found under the package directory, the result is
    the package name, a dot and the module name, with the script found, whatever the
    search path holds;
  \<^item> when the package directory is \<open>None\<close> or empty, or the module is not found under
    it, the search path decides: the first directory in which the module is found gives
    the result, the module name as it is and the script found there; and when no
    directory has it the result is the pair \<open>(None, None)\<close>. The function is total: there
    is no error result;
  \<^item> a module is found in a directory as the file \<open>name.py\<close> or else as the file
    \<open>__init__.py\<close> in the directory \<open>name\<close>, the dots of the name being path separators;
  \<^item> the search path built by the constructor is each root of \<open>gopath\<close> joined with
    \<open>src\<close> and \<open>__python__\<close>.
\<close>

lemma resolve_import_order:
  "(\<forall>d pn script.
      package_dir self = Some d \<and> d \<noteq> [] \<and> package_name self = Some pn \<and>
      find_script isfile d modname = Some script \<longrightarrow>
      resolve_import isfile self modname = (Some (pn @ ''.'' @ modname), Some script)) \<and>
   (\<not> truthy (package_dir self) \<or>
      find_script isfile (the (package_dir self)) modname = None \<longrightarrow>
      (\<forall>i script.
         i < length (dirs self) \<and> find_script isfile (dirs self ! i) modname = Some script \<and>
         (\<forall>j<i. find_script isfile (dirs self ! j) modname = None) \<longrightarrow>
         resolve_import isfile self modname = (Some modname, Some script)) \<and>
      ((\<forall>d\<in>set (dirs self). find_script isfile d modname = None) \<longrightarrow>
         resolve_import isfile self modname = (None, None))) \<and>
   (\<forall>d. find_script isfile d modname =
      (if isfile (path_join d (dots_to_sep modname) @ ''.py'')
       then Some (path_join d (dots_to_sep modname) @ ''.py'')
       else if isfile (path_join (path_join d (dots_to_sep modname)) ''__init__.py'')
       then Some (path_join (path_join d (dots_to_sep modname)) ''__init__.py'')
       else None)) \<and>
   dirs (Path_init isfile gopath this script0) =
     (if gopath = [] then []
      else map (\<lambda>root. path_join (path_join root ''src'') ''__python__'')
             (str_split (CHR '':'') gopath))"
proof (intro conjI)
  show "\<forall>d pn script.
      package_dir self = Some d \<and> d \<noteq> [] \<and> package_name self = Some pn \<and>
      find_script isfile d modname = Some script \<longrightarrow>
      resolve_import isfile self modname = (Some (pn @ ''.'' @ modname), Some script)"
    using resolve_import_package by blast
  show "\<not> truthy (package_dir self) \<or>
      find_script isfile (the (package_dir self)) modname = None \<longrightarrow>
      (\<forall>i script.
         i < length (dirs self) \<and> find_script isfile (dirs self ! i) modname = Some script \<and>
         (\<forall>j<i. find_script isfile (dirs self ! j) modname = None) \<longrightarrow>
         resolve_import isfile self modname = (Some modname, Some script)) \<and>
      ((\<forall>d\<in>set (dirs self). find_script isfile d modname = None) \<longrightarrow>
         resolve_import isfile self modname = (None, None))"
    using resolve_in_dirs_first [of _ "dirs self" isfile modname]
      resolve_in_dirs_none [of "dirs self" isfile modname]
    by (auto simp: resolve_import_search)
  show "\<forall>d. find_script isfile d modname =
      (if isfile (path_join d (dots_to_sep modname) @ ''.py'')
       then Some (path_join d (dots_to_sep modname) @ ''.py'')
       else if isfile (path_join (path_join d (dots_to_sep modname)) ''__init__.py'')
       then Some (path_join (path_join d (dots_to_sep modname)) ''__init__.py'')
       else None)"
    using find_script_cases by blast
  show "dirs (Path_init isfile gopath this script0) =
     (if gopath = [] then []
      else map (\<lambda>root. path_join (path_join root ''src'') ''__python__'')
             (str_split (CHR '':'') gopath))"
    by (rule Path_init_dirs)
qed

lemma resolve_import_order_example:
  "resolve_import example_files (Path_init example_files ''/go'' ''pkg.sub'' ''/w/pkg/sub.py'') ''sub2'' =
     (Some ''pkg.sub2'', Some ''/w/pkg/sub2.py'') \<and>
   resolve_import example_files example_path ''sub2'' =
     (Some ''sub2'', Some ''/go/src/__python__/sub2.py'') \<and>
   resolve_import example_files example_path ''nothing'' = (None, None)"
proof -
  let ?P = "Path_init example_files ''/go'' ''pkg.sub'' ''/w/pkg/sub.py''"
  have p: "package_dir ?P = Some ''/w/pkg'' \<and> ''/w/pkg'' \<noteq> [] \<and> package_name ?P = Some ''pkg'' \<and>
      find_script example_files ''/w/pkg'' ''sub2'' = Some ''/w/pkg/sub2.py''"
    by (simp add: path_pkg fs1)
  have a: "resolve_import example_files ?P ''sub2'' = (Some (''pkg'' @ ''.'' @ ''sub2''), Some ''/w/pkg/sub2.py'')"
    using resolve_import_order [of ?P example_files "''sub2''" "[]" "[]" "[]"] p by blast
  have n: "\<not> truthy (package_dir example_path)" by (simp add: path_main truthy_def)
  have q: "0 < length (dirs example_path) \<and>
      find_script example_files (dirs example_path ! 0) ''sub2'' = Some ''/go/src/__python__/sub2.py'' \<and>
      (\<forall>j<0. find_script example_files (dirs example_path ! j) ''sub2'' = None)"
    by (simp add: path_main fs2)
  have b: "resolve_import example_files example_path ''sub2'' =
      (Some ''sub2'', Some ''/go/src/__python__/sub2.py'')"
    using resolve_import_order [of example_path example_files "''sub2''" "[]" "[]" "[]"] n q by blast
  have r: "\<forall>d\<in>set (dirs example_path). find_script example_files d ''nothing'' = None"
    by (simp add: path_main fs3)
  have c: "resolve_import example_files example_path ''nothing'' = (None, None)"
    using resolve_import_order [of example_path example_files "''nothing''" "[]" "[]" "[]"] n r by blast
  from a b c show ?thesis by simp
qed


subsection \<open>A package compiled from its own directory\<close>

text \<open>
  Claim C5 fails in the code for a module of a package whose script is named without a
  directory part. Compiling \<open>pkg.sub\<close> from \<open>sub.py\<close>, beside the package initializer, the
  constructor records the package: the name \<open>pkg\<close> and the directory, which is the empty
  string. The package has a module \<open>sub2\<close>, found as \<open>sub2.py\<close> under that directory. But
  \<open>if self.package_dir:\<close> takes the empty string for no package, the package-relative
  attempt is not made, and \<open>resolve_import\<close> answers with the module \<open>sub2\<close> of the search
  path instead of \<open>pkg.sub2\<close>.
\<close>

theorem resolve_import_bare_script_path:
  "Path_init bare_script_files ''/go'' ''pkg.sub'' ''sub.py'' =
     \<lparr>dirs = [''/go/src/__python__''], package_dir = Some [], package_name = Some ''pkg''\<rparr> \<and>
   find_script bare_script_files [] ''sub2'' = Some ''sub2.py'' \<and>
   resolve_import bare_script_files
     (Path_init bare_script_files ''/go'' ''pkg.sub'' ''sub.py'') ''sub2'' =
     (Some ''sub2'', Some ''/go/src/__python__/sub2.py'')"
proof -
  have p: "Path_init bare_script_files ''/go'' ''pkg.sub'' ''sub.py'' =
     \<lparr>dirs = [''/go/src/__python__''], package_dir = Some [], package_name = Some ''pkg''\<rparr>"
    by (simp add: Path_init_def path_split_def rfind_end_def rstrip_def path_join_def
        startswith_def endswith_def bare_script_files_def Let_def)
  have f: "find_script bare_script_files [] ''sub2'' = Some ''sub2.py''"
    by (simp add: find_script_def path_join_def startswith_def endswith_def
        bare_script_files_def dots_to_sep_def Let_def)
  have r: "resolve_import bare_script_files
     \<lparr>dirs = [''/go/src/__python__''], package_dir = Some [], package_name = Some ''pkg''\<rparr>
     ''sub2'' = (Some ''sub2'', Some ''/go/src/__python__/sub2.py'')"
    by (simp add: resolve_import_def truthy_def find_script_def path_join_def startswith_def
        endswith_def bare_script_files_def dots_to_sep_def Let_def)
  from p f r show ?thesis by simp
qed

section \<open>Properties of the \<open>Writer\<close>\<close>

declare str_nat.simps [simp del]

lemma indent_level_write_line [simp]: "indent_level (write_line line self) = indent_level self"
  by (simp add: write_line_def)

lemma fold_write_line:
  "fold write_line ls self =
     self\<lparr>out := out self @
       concat (map (line_text (indent_level self)) (filter (\<lambda>line. line \<noteq> []) ls))\<rparr>"
proof (induction ls arbitrary: self)
  case Nil
  then show ?case by simp
next
  case (Cons l ls)
  then show ?case by (simp add: write_line_def)
qed

lemma write_rendered: "write output self = self\<lparr>out := out self @ rendered (indent_level self) output\<rparr>"
  by (simp add: write_def rendered_def fold_write_line)

lemma indent_level_write [simp]: "indent_level (write output self) = indent_level self"
  by (simp add: write_rendered)

lemma str_split_single: "sep \<notin> set s \<Longrightarrow> str_split sep s = [s]"
  by (induction s) auto

lemma rendered_line: "LF \<notin> set line \<Longrightarrow> line \<noteq> [] \<Longrightarrow> rendered level line = line_text level line"
  by (simp add: rendered_def str_split_single)

lemma dec_digit_in: "dec_digit d \<in> set ''0123456789''"
  unfolding dec_digit_def by (rule nth_mem) simp

lemma str_nat_digits: "set (str_nat n) \<subseteq> set ''0123456789''"
proof (induction n rule: str_nat.induct)
  case (1 n)
  show ?case
  proof (cases "n < 10")
    case True
    then show ?thesis using dec_digit_in [of n] by (subst str_nat.simps) simp
  next
    case False
    then show ?thesis using 1 dec_digit_in [of "n mod 10"] by (subst str_nat.simps) simp
  qed
qed

lemma str_nat_nonempty: "str_nat n \<noteq> []"
  by (subst str_nat.simps) simp

lemma str_int_no_LF: "LF \<notin> set (str_int i)"
  using str_nat_digits [of "nat i"] str_nat_digits [of "nat (- i)"]
  by (auto simp: str_int_def)

lemma case_goto_line: "LF \<notin> set (case_goto state) \<and> case_goto state \<noteq> []"
  using str_int_no_LF [of state] by (simp add: case_goto_def)

lemma write_case_goto:
  "write_tmpl_case_goto state self =
     self\<lparr>out := out self @ line_text (indent_level self) (case_goto state)\<rparr>"
  using case_goto_line [of state] by (simp add: write_tmpl_case_goto_def write_rendered rendered_line)

lemma fold_case_goto:
  "fold write_tmpl_case_goto cps self =
     self\<lparr>out := out self @ concat (map (\<lambda>state. line_text (indent_level self) (case_goto state)) cps)\<rparr>"
  by (induction cps arbitrary: self) (simp_all add: write_case_goto)

lemma fixed_lines:
  "rendered l line_var_E = line_text l line_var_E"
  "rendered l line_for = line_text l line_for"
  "rendered l line_switch = line_text l line_switch"
  "rendered l line_default = line_text l line_default"
  "rendered l line_return_E = line_text l line_return_E"
  "rendered l ''case 0:'' = line_text l ''case 0:''"
  "rendered l ''}'' = line_text l ''}''"
  "rendered l ''return nil, nil'' = line_text l ''return nil, nil''"
  "rendered l ''import ('' = line_text l ''import (''"
  "rendered l '')'' = line_text l '')''"
  by (simp_all add: rendered_line line_var_E_def line_for_def line_switch_def line_default_def
      line_return_E_def PI_def)

subsection \<open>The dispatch loop of \<open>write_block\<close>\<close>

lemma write_block_lines:
  "write_block block body self =
     self\<lparr>out := out self @
       line_text (indent_level self) line_var_E @
       line_text (indent_level self) line_for @
       line_text (indent_level self + 1) line_switch @
       line_text (indent_level self + 1) ''case 0:'' @
       concat (map (\<lambda>state. line_text (indent_level self + 1) (case_goto state)) (checkpoints block)) @
       line_text (indent_level self + 1) line_default @
       line_text (indent_level self + 1) ''}'' @
       rendered (indent_level self) body @
       line_text (indent_level self + 1) ''return nil, nil'' @
       line_text (indent_level self) ''}'' @
       line_text (indent_level self) line_return_E\<rparr>"
  by (simp add: write_block_def indent_block_def returns_def indent_def dedent_def Let_def
      write_rendered fold_case_goto fixed_lines)

text \<open>
  Claim C3, as the code has it by design. For every list of checkpoints, every body and
  every writer at depth \<open>d\<close>, \<open>write_block\<close> appends exactly this text: at depth \<open>d\<close>
  the declaration of the pending exception and the loop header
  \<open>for ; F.State() >= 0; F.PopCheckpoint() {\<close>, so the loop runs while the saved state is
  not negative and pops a checkpoint after each pass; at depth \<open>d + 1\<close> the switch on the
  state with the empty \<open>case 0:\<close>, which leaves the switch for the top of the body, then
  one line \<open>case N: goto LabelN\<close> for every checkpoint \<open>N\<close> of the list, in order and
  without exception for \<open>N = 0\<close>, then \<open>default: panic("unexpected function state")\<close>
  and the closing brace; the non-empty lines of the body at depth \<open>d\<close>;
  \<open>return nil, nil\<close> at depth \<open>d + 1\<close>; the closing brace and the return of the pending
  exception at depth \<open>d\<close>. The depth of the writer is unchanged.
\<close>

theorem write_block_text:
  "write_block block body self =
     self\<lparr>out := out self @
       replicate (nat (indent_level self)) TAB @ ''var '' @ [CHR 0xCF, CHR 0x80] @ ''E *'' @ [CHR 0xCF, CHR 0x80] @
         ''g.BaseException; _ = '' @ [CHR 0xCF, CHR 0x80] @ ''E'' @ [LF] @
       replicate (nat (indent_level self)) TAB @ ''for ; '' @ [CHR 0xCF, CHR 0x80] @
         ''F.State() >= 0; '' @ [CHR 0xCF, CHR 0x80] @ ''F.PopCheckpoint() {'' @ [LF] @
       replicate (nat (indent_level self + 1)) TAB @ ''switch '' @ [CHR 0xCF, CHR 0x80] @
         ''F.State() {'' @ [LF] @
       replicate (nat (indent_level self + 1)) TAB @ ''case 0:'' @ [LF] @
       concat (map (\<lambda>N. replicate (nat (indent_level self + 1)) TAB @ 
                      ''case '' @ str_int N @ '': goto Label'' @ str_int N @ [LF])
                 (checkpoints block)) @
       replicate (nat (indent_level self + 1)) TAB @ ''default: panic('' @ [DQ] @
         ''unexpected function state'' @ [DQ] @ '')'' @ [LF] @
       replicate (nat (indent_level self + 1)) TAB @ ''}'' @ [LF] @
       concat (map (\<lambda>line. replicate (nat (indent_level self)) TAB @ line @ [LF])
                 (filter (\<lambda>line. line \<noteq> []) (str_split LF body))) @
       replicate (nat (indent_level self + 1)) TAB @ ''return nil, nil'' @ [LF] @
       replicate (nat (indent_level self)) TAB @ ''}'' @ [LF] @
       replicate (nat (indent_level self)) TAB @ ''return nil, '' @ [CHR 0xCF, CHR 0x80] @ ''E'' @ [LF]\<rparr>"
  by (simp add: write_block_lines line_text_def [abs_def] rendered_def case_goto_def
      line_var_E_def line_for_def line_switch_def line_default_def line_return_E_def PI_def)

theorem write_block_text_witness:
  "out (write_block \<lparr>checkpoints = [3, 7]\<rparr> (''a'' @ [LF, LF] @ ''Label3:'') Writer_init) =
     ''var '' @ [CHR 0xCF, CHR 0x80] @ ''E *'' @ [CHR 0xCF, CHR 0x80] @ ''g.BaseException; _ = '' @ [CHR 0xCF, CHR 0x80] @ ''E'' @ [LF] @
     ''for ; '' @ [CHR 0xCF, CHR 0x80] @ ''F.State() >= 0; '' @ [CHR 0xCF, CHR 0x80] @ ''F.PopCheckpoint() {'' @ [LF] @
     [TAB] @ ''switch '' @ [CHR 0xCF, CHR 0x80] @ ''F.State() {'' @ [LF] @
     [TAB] @ ''case 0:'' @ [LF] @
     [TAB] @ ''case 3: goto Label3'' @ [LF] @
     [TAB] @ ''case 7: goto Label7'' @ [LF] @
     [TAB] @ ''default: panic('' @ [DQ] @ ''unexpected function state'' @ [DQ] @ '')'' @ [LF] @
     [TAB] @ ''}'' @ [LF] @
     ''a'' @ [LF] @
     ''Label3:'' @ [LF] @
     [TAB] @ ''return nil, nil'' @ [LF] @
     ''}'' @ [LF] @
     ''return nil, '' @ [CHR 0xCF, CHR 0x80] @ ''E'' @ [LF]"
  using write_block_text [of "\<lparr>checkpoints = [3, 7]\<rparr>" "''a'' @ [LF, LF] @ ''Label3:''" Writer_init]
  by (simp add: Writer_init_def str_int_def str_nat.simps dec_digit_def)

text \<open>
  Claim C3 as stated fails for its own example: for the checkpoints 0, 3 and 7 the
  switch has the empty \<open>case 0:\<close> and, after it, a second arm \<open>case 0: goto Label0\<close>.
  The emitted text is not the dispatch with arms for 3 and 7 only. State 0 is the
  entry by the fixed first arm; the list of checkpoints is not meant to hold it.
\<close>

theorem write_block_checkpoint_zero_counterexample:
  "out (write_block \<lparr>checkpoints = [0, 3, 7]\<rparr> ''body'' Writer_init) =
     ''var '' @ [CHR 0xCF, CHR 0x80] @ ''E *'' @ [CHR 0xCF, CHR 0x80] @ ''g.BaseException; _ = '' @ [CHR 0xCF, CHR 0x80] @ ''E'' @ [LF] @
     ''for ; '' @ [CHR 0xCF, CHR 0x80] @ ''F.State() >= 0; '' @ [CHR 0xCF, CHR 0x80] @ ''F.PopCheckpoint() {'' @ [LF] @
     [TAB] @ ''switch '' @ [CHR 0xCF, CHR 0x80] @ ''F.State() {'' @ [LF] @
     [TAB] @ ''case 0:'' @ [LF] @
     [TAB] @ ''case 0: goto Label0'' @ [LF] @
     [TAB] @ ''case 3: goto Label3'' @ [LF] @
     [TAB] @ ''case 7: goto Label7'' @ [LF] @
     [TAB] @ ''default: panic('' @ [DQ] @ ''unexpected function state'' @ [DQ] @ '')'' @ [LF] @
     [TAB] @ ''}'' @ [LF] @
     ''body'' @ [LF] @
     [TAB] @ ''return nil, nil'' @ [LF] @
     ''}'' @ [LF] @
     ''return nil, '' @ [CHR 0xCF, CHR 0x80] @ ''E'' @ [LF] \<and>
   out (write_block \<lparr>checkpoints = [0, 3, 7]\<rparr> ''body'' Writer_init) \<noteq>
     ''var '' @ [CHR 0xCF, CHR 0x80] @ ''E *'' @ [CHR 0xCF, CHR 0x80] @ ''g.BaseException; _ = '' @ [CHR 0xCF, CHR 0x80] @ ''E'' @ [LF] @
     ''for ; '' @ [CHR 0xCF, CHR 0x80] @ ''F.State() >= 0; '' @ [CHR 0xCF, CHR 0x80] @ ''F.PopCheckpoint() {'' @ [LF] @
     [TAB] @ ''switch '' @ [CHR 0xCF, CHR 0x80] @ ''F.State() {'' @ [LF] @
     [TAB] @ ''case 0:'' @ [LF] @
     [TAB] @ ''case 3: goto Label3'' @ [LF] @
     [TAB] @ ''case 7: goto Label7'' @ [LF] @
     [TAB] @ ''default: panic('' @ [DQ] @ ''unexpected function state'' @ [DQ] @ '')'' @ [LF] @
     [TAB] @ ''}'' @ [LF] @
     ''body'' @ [LF] @
     [TAB] @ ''return nil, nil'' @ [LF] @
     ''}'' @ [LF] @
     ''return nil, '' @ [CHR 0xCF, CHR 0x80] @ ''E'' @ [LF]"
  by (simp add: write_block_lines line_text_def rendered_def case_goto_def line_var_E_def
      line_for_def line_switch_def line_default_def line_return_E_def PI_def Writer_init_def
      str_int_def str_nat.simps dec_digit_def)

subsection \<open>Indentation regions\<close>

lemma indent_block_returns:
  "body (indent n self) = (self', None) \<Longrightarrow> indent_block n body self = (dedent n self', None)"
  by (simp add: indent_block_def)

lemma indent_block_raises:
  "body (indent n self) = (self', Some e) \<Longrightarrow> indent_block n body self = (self', Some e)"
  by (simp add: indent_block_def)

text \<open>
  As long as nothing raises, every region restores the depth: a body without a raising
  statement ends normally at the depth at which it began, whatever it nests and also
  when it is empty.
\<close>

lemma raise_free_depth:
  "raise_free s \<Longrightarrow> \<exists>self'. exec s self = (self', None) \<and> indent_level self' = indent_level self"
  "raise_free_body ss \<Longrightarrow>
     \<exists>self'. exec_body ss self = (self', None) \<and> indent_level self' = indent_level self"
proof (induction s self and ss self rule: exec_exec_body.induct)
  case (1 outp self)
  then show ?case by simp
next
  case (2 n body self)
  then obtain w where "exec_body body (indent n self) = (w, None)"
    and "indent_level w = indent_level (indent n self)" by fastforce
  then show ?case by (simp add: indent_block_def indent_def dedent_def)
next
  case (3 body handler self)
  then obtain w where "exec_body body self = (w, None)"
    and "indent_level w = indent_level self" by fastforce
  then show ?case by simp
next
  case (4 e self)
  then show ?case by simp
next
  case (5 self)
  then show ?case by simp
next
  case (6 s ss self)
  from 6(1) 6(3) obtain w where w: "exec s self = (w, None)"
    and lw: "indent_level w = indent_level self" by fastforce
  from w have w': "(w, None) = exec s self" by simp
  from 6(2) [OF w' refl] 6(3) obtain w2 where "exec_body ss w = (w2, None)"
    and "indent_level w2 = indent_level w" by fastforce
  with w lw show ?case by simp
qed

text \<open>
  Claim C2 fails in the code on the exception path. The region
  \<open>with self.indent_block(): raise Exception('early exit')\<close>, entered at depth 0, is left
  by the exception with the writer at depth 1: the generator has no \<open>try ... finally\<close>
  around its \<open>yield\<close>, so the dedent promised by the docstring (\<open>dedents on exit\<close>) is
  skipped. When the caller catches the exception and goes on writing, the depth stays
  wrong: the statement ends normally, and the next line is written one level too deep.
  An enclosing region that catches the exception of a nested one ends normally, and
  yet leaves the writer one level deeper than it found it.
\<close>

theorem indent_block_exception_keeps_depth:
  "indent_block 1 (exec_body [Raise (Exception ''early exit'')])
      \<lparr>out = [], indent_level = 0\<rparr> =
     (\<lparr>out = [], indent_level = 1\<rparr>, Some (Exception ''early exit'')) \<and>
   exec_body
      [Try_except [With_indent_block 1 [Raise (Exception ''early exit'')]] [], Write ''x'']
      \<lparr>out = [], indent_level = 0\<rparr> =
     (\<lparr>out = [TAB] @ ''x'' @ [LF], indent_level = 1\<rparr>, None) \<and>
   indent_block 1
      (exec_body [Try_except [With_indent_block 1 [Raise (Exception ''early exit'')]] []])
      \<lparr>out = [], indent_level = 0\<rparr> =
     (\<lparr>out = [], indent_level = 1\<rparr>, None)"
  by (simp add: indent_block_def indent_def dedent_def write_def write_line_def line_text_def)

subsection \<open>The import block\<close>

lemma fold_write_rendered:
  "fold (\<lambda>k. write (f k)) ks self =
     self\<lparr>out := out self @ concat (map (\<lambda>k. rendered (indent_level self) (f k)) ks)\<rparr>"
  by (induction ks arbitrary: self) (simp_all add: write_rendered)

lemma sort_distinct_keys:
  "distinct ks \<Longrightarrow> sort ks = sorted_list_of_set (set ks)"
  by (simp add: sorted_list_of_set_sort_remdups distinct_remdups_id)

lemma import_entry_key:
  "map_of dict nm = Some al \<Longrightarrow>
     import_entry dict nm = al @ '' '' @ [DQ] @ nm @ [DQ]"
  by (simp add: import_entry_def)

lemma write_import_block_same:
  assumes "distinct (map fst dict)" and "distinct (map fst dict')"
    and "set dict' = set dict"
  shows "write_import_block dict' self = write_import_block dict self"
proof -
  from assms have m: "map_of dict' = map_of dict"
    by (simp add: map_of_inject_set)
  have "set (map fst dict') = set (map fst dict)" using assms(3) by simp
  with assms(1,2) have s: "sort (map fst dict') = sort (map fst dict)"
    by (simp only: sort_distinct_keys)
  have e: "(dict' = []) = (dict = [])" using assms(3) by (metis set_empty)
  have i: "import_entry dict' = import_entry dict"
    by (rule ext) (simp add: import_entry_def m)
  show ?thesis by (simp add: write_import_block_def m s e i)
qed

lemma write_import_block_items:
  assumes ne: "dict \<noteq> []" and d: "distinct (map fst dict)"
  defines "entries \<equiv> map (\<lambda>k. (k, the (map_of dict k))) (sort (map fst dict))"
  shows "set entries = set dict" and "length entries = length dict"
    and "map fst entries = sorted_list_of_set (fst ` set dict)"
    and "write_import_block dict self =
       self\<lparr>out := out self @ line_text (indent_level self) ''import ('' @
         concat (map (\<lambda>(nm, al).
           rendered (indent_level self + 1) (al @ '' '' @ [DQ] @ nm @ [DQ])) entries) @
         line_text (indent_level self) '')''\<rparr>"
proof -
  have look: "(k, v) \<in> set dict \<Longrightarrow> map_of dict k = Some v" for k v
    using d by simp
  show "set entries = set dict"
  proof
    show "set entries \<subseteq> set dict"
      using look by (auto simp: entries_def)
    show "set dict \<subseteq> set entries"
      using look by (force simp: entries_def image_iff)
  qed
  show "length entries = length dict" by (simp add: entries_def)
  have "map fst entries = sort (map fst dict)" by (simp add: entries_def comp_def)
  then show "map fst entries = sorted_list_of_set (fst ` set dict)"
    using d by (simp add: sort_distinct_keys)
  have same: "map (\<lambda>k. rendered l (import_entry dict k)) (sort (map fst dict)) =
      map (\<lambda>(nm, al). rendered l (al @ '' '' @ [DQ] @ nm @ [DQ])) entries" for l
    using look by (auto simp: entries_def import_entry_def)
  show "write_import_block dict self =
       self\<lparr>out := out self @ line_text (indent_level self) ''import ('' @
         concat (map (\<lambda>(nm, al).
           rendered (indent_level self + 1) (al @ '' '' @ [DQ] @ nm @ [DQ])) entries) @
         line_text (indent_level self) '')''\<rparr>"
    using ne
    by (simp add: write_import_block_def indent_block_def returns_def indent_def dedent_def
        Let_def write_rendered fixed_lines fold_write_rendered same)
qed

lemma entry_one_line:
  "LF \<notin> set nm \<and> LF \<notin> set al \<Longrightarrow>
     rendered l (al @ '' '' @ [DQ] @ nm @ [DQ]) = line_text l (al @ '' '' @ [DQ] @ nm @ [DQ])"
  by (simp add: rendered_line)

text \<open>
  Claim C9. For a non-empty dictionary from absolute module names to aliases,
  \<open>write_import_block\<close> writes \<open>import (\<close>, one entry \<open>alias "name"\<close> per item at one
  level deeper, and \<open>)\<close>. There is exactly one entry per item, and the entries are in the
  lexicographic order of their names, which is the sorted list of the set of keys. An
  entry is one line when neither the name nor the alias holds a line feed. Two
  dictionaries with the same items give the same output, whatever the order of
  insertion.
\<close>

theorem write_import_block_sorted:
  assumes "dict \<noteq> []" and "distinct (map fst dict)"
  shows "(\<exists>entries.
            set entries = set dict \<and> length entries = length dict \<and>
            sorted (map fst entries) \<and>
            map fst entries = sorted_list_of_set (fst ` set dict) \<and>
            write_import_block dict self =
              self\<lparr>out := out self @ line_text (indent_level self) ''import ('' @
                concat (map (\<lambda>(nm, al).
                  rendered (indent_level self + 1) (al @ '' '' @ [DQ] @ nm @ [DQ])) entries) @
                line_text (indent_level self) '')''\<rparr>) \<and>
         (\<forall>nm al l. LF \<notin> set nm \<and> LF \<notin> set al \<longrightarrow>
            rendered l (al @ '' '' @ [DQ] @ nm @ [DQ]) =
              replicate (nat l) TAB @ al @ '' '' @ [DQ] @ nm @ [DQ] @ [LF]) \<and>
         (\<forall>dict'. distinct (map fst dict') \<and> set dict' = set dict \<longrightarrow>
            write_import_block dict' self = write_import_block dict self)"
proof -
  let ?entries = "map (\<lambda>k. (k, the (map_of dict k))) (sort (map fst dict))"
  have "sorted (map fst ?entries)" by (simp add: comp_def)
  with write_import_block_items [OF assms]
  have "\<exists>entries.
            set entries = set dict \<and> length entries = length dict \<and>
            sorted (map fst entries) \<and>
            map fst entries = sorted_list_of_set (fst ` set dict) \<and>
            write_import_block dict self =
              self\<lparr>out := out self @ line_text (indent_level self) ''import ('' @
                concat (map (\<lambda>(nm, al).
                  rendered (indent_level self + 1) (al @ '' '' @ [DQ] @ nm @ [DQ])) entries) @
                line_text (indent_level self) '')''\<rparr>"
    by blast
  moreover have "\<forall>nm al l. LF \<notin> set nm \<and> LF \<notin> set al \<longrightarrow>
            rendered l (al @ '' '' @ [DQ] @ nm @ [DQ]) =
              replicate (nat l) TAB @ al @ '' '' @ [DQ] @ nm @ [DQ] @ [LF]"
    using entry_one_line by (auto simp: line_text_def)
  moreover have "\<forall>dict'. distinct (map fst dict') \<and> set dict' = set dict \<longrightarrow>
            write_import_block dict' self = write_import_block dict self"
    using write_import_block_same [OF assms(2)] by blast
  ultimately show ?thesis by blast
qed

theorem write_import_block_sorted_witness:
  "write_import_block [(''os'', ''pi_os''), (''grumpy'', ''pg'')] Writer_init =
     \<lparr>out = ''import ('' @ [LF] @
             [TAB] @ ''pg '' @ [DQ] @ ''grumpy'' @ [DQ, LF] @
             [TAB] @ ''pi_os '' @ [DQ] @ ''os'' @ [DQ, LF] @
             '')'' @ [LF],
      indent_level = 0\<rparr> \<and>
   write_import_block [(''grumpy'', ''pg''), (''os'', ''pi_os'')] Writer_init =
     write_import_block [(''os'', ''pi_os''), (''grumpy'', ''pg'')] Writer_init"
proof -
  have h1: "[(''os'', ''pi_os''), (''grumpy'', ''pg'')] \<noteq> []" by simp
  have h2: "distinct (map fst [(''os'', ''pi_os''), (''grumpy'', ''pg'')])" by simp
  have v: "write_import_block [(''os'', ''pi_os''), (''grumpy'', ''pg'')] Writer_init =
     \<lparr>out = ''import ('' @ [LF] @
             [TAB] @ ''pg '' @ [DQ] @ ''grumpy'' @ [DQ, LF] @
             [TAB] @ ''pi_os '' @ [DQ] @ ''os'' @ [DQ, LF] @
             '')'' @ [LF],
      indent_level = 0\<rparr>"
    by (simp add: write_import_block_def indent_block_def returns_def indent_def dedent_def
        write_def write_line_def line_text_def import_entry_def Writer_init_def)
  have h4: "distinct (map fst [(''grumpy'', ''pg''), (''os'', ''pi_os'')]) \<and>
      set [(''grumpy'', ''pg''), (''os'', ''pi_os'')] = set [(''os'', ''pi_os''), (''grumpy'', ''pg'')]"
    by auto
  from write_import_block_sorted [OF h1 h2, of Writer_init]
  have "\<forall>dict'. distinct (map fst dict') \<and>
      set dict' = set [(''os'', ''pi_os''), (''grumpy'', ''pg'')] \<longrightarrow>
      write_import_block dict' Writer_init =
        write_import_block [(''os'', ''pi_os''), (''grumpy'', ''pg'')] Writer_init"
    by blast
  then have "write_import_block [(''grumpy'', ''pg''), (''os'', ''pi_os'')] Writer_init =
     write_import_block [(''os'', ''pi_os''), (''grumpy'', ''pg'')] Writer_init"
    using h4 by blast
  with v show ?thesis by simp
qed

section \<open>Properties of \<open>go_str\<close>\<close>

lemma range_list_all:
  assumes "list_all P [a..<b]" and "a \<le> (c :: nat)" and "c < b"
  shows "P c"
  using assms by (simp add: list_all_iff del: upt_rec_numeral)

lemma digits_range:
  assumes "48 \<le> (c :: nat)" and "c < 58"
  shows "c \<in> of_char ` set digits"
proof -
  have "list_all (\<lambda>c :: nat. c \<in> of_char ` set digits) [48..<58]"
    by (simp add: upt_conv_Cons digits_def)
  then show ?thesis using assms by (rule range_list_all)
qed

lemma lower_range:
  assumes "97 \<le> (c :: nat)" and "c < 123"
  shows "c \<in> of_char ` set letters"
proof -
  have "list_all (\<lambda>c :: nat. c \<in> of_char ` set letters) [97..<123]"
    by (simp add: upt_conv_Cons letters_def)
  then show ?thesis using assms by (rule range_list_all)
qed

lemma upper_range:
  assumes "65 \<le> (c :: nat)" and "c < 91"
  shows "c \<in> of_char ` set letters"
proof -
  have "list_all (\<lambda>c :: nat. c \<in> of_char ` set letters) [65..<91]"
    by (simp add: upt_conv_Cons letters_def)
  then show ?thesis using assms by (rule range_list_all)
qed

lemma punct_range1:
  assumes "33 \<le> (c :: nat)" and "c < 48"
  shows "c \<in> of_char ` set punctuation"
proof -
  have "list_all (\<lambda>c :: nat. c \<in> of_char ` set punctuation) [33..<48]"
    by (simp add: upt_conv_Cons punctuation_def)
  then show ?thesis using assms by (rule range_list_all)
qed

lemma punct_range2:
  assumes "58 \<le> (c :: nat)" and "c < 65"
  shows "c \<in> of_char ` set punctuation"
proof -
  have "list_all (\<lambda>c :: nat. c \<in> of_char ` set punctuation) [58..<65]"
    by (simp add: upt_conv_Cons punctuation_def)
  then show ?thesis using assms by (rule range_list_all)
qed

lemma punct_range3:
  assumes "91 \<le> (c :: nat)" and "c < 97"
  shows "c \<in> of_char ` set punctuation"
proof -
  have "list_all (\<lambda>c :: nat. c \<in> of_char ` set punctuation) [91..<97]"
    by (simp add: upt_conv_Cons punctuation_def)
  then show ?thesis using assms by (rule range_list_all)
qed

lemma punct_range4:
  assumes "123 \<le> (c :: nat)" and "c < 127"
  shows "c \<in> of_char ` set punctuation"
proof -
  have "list_all (\<lambda>c :: nat. c \<in> of_char ` set punctuation) [123..<127]"
    by (simp add: upt_conv_Cons punctuation_def)
  then show ?thesis using assms by (rule range_list_all)
qed

lemma SIMPLE_CHARS_range:
  assumes "32 \<le> (c :: nat)" and "c \<le> 126"
  shows "c \<in> SIMPLE_CHARS"
proof -
  consider "c = 32" | "33 \<le> c \<and> c < 48" | "48 \<le> c \<and> c < 58" | "58 \<le> c \<and> c < 65"
    | "65 \<le> c \<and> c < 91" | "91 \<le> c \<and> c < 97" | "97 \<le> c \<and> c < 123" | "123 \<le> c \<and> c < 127"
    using assms by linarith
  then show ?thesis
    using digits_range [of c] lower_range [of c] upper_range [of c] punct_range1 [of c]
      punct_range2 [of c] punct_range3 [of c] punct_range4 [of c]
    by cases (auto simp: SIMPLE_CHARS_def)
qed

lemma SIMPLE_CHARS_bounds: "c \<in> SIMPLE_CHARS \<Longrightarrow> 32 \<le> c \<and> c \<le> 126"
  by (auto simp: SIMPLE_CHARS_def digits_def letters_def punctuation_def)

lemma ESCAPES_cases:
  "ESCAPES c = Some e \<Longrightarrow>
     e = [BSL, CHR ''t''] \<or> e = [BSL, CHR ''r''] \<or> e = [BSL, CHR ''n''] \<or>
     e = [BSL, DQ] \<or> e = [BSL, BSL]"
  by (auto simp: ESCAPES_def split: if_splits)

lemma ESCAPES_None: "ESCAPES c = None \<longleftrightarrow> c \<notin> {9, 10, 13, 34, 92}"
  by (auto simp: ESCAPES_def)

lemma char_of_inj_small:
  assumes "(c :: nat) < 256" and "char_of c = (x :: char)"
  shows "c = of_char x"
proof -
  have "of_char (char_of c :: char) = c mod 256" by simp
  with assms show ?thesis by simp
qed

lemma go_str_loop_concat: "go_str_loop cs io = io @ concat (map go_str_char cs)"
  by (induction cs arbitrary: io) simp_all

lemma go_str_concat: "go_str value = DQ # concat (map go_str_char value) @ [DQ]"
  by (simp add: go_str_def go_str_loop_concat)

declare format_x.simps [simp del]

subsection \<open>The result is one closed literal\<close>

lemma well_escaped_plain:
  "c \<noteq> BSL \<Longrightarrow> c \<noteq> DQ \<Longrightarrow> c \<noteq> LF \<Longrightarrow> c \<noteq> CR \<Longrightarrow> well_escaped (c # s) = well_escaped s"
  by (cases s) simp_all

lemma well_escaped_pair:
  "e \<in> set (''trnx'' @ [DQ, BSL]) \<Longrightarrow> well_escaped (BSL # e # s) = well_escaped s"
  by simp

lemma hex_digit_in: "hex_digit d \<in> set ''0123456789abcdef''"
  unfolding hex_digit_def by (rule nth_mem) simp

lemma format_x_hex: "set (format_x n) \<subseteq> set ''0123456789abcdef''"
proof (induction n rule: format_x.induct)
  case (1 n)
  show ?case
  proof (cases "n < 16")
    case True
    then show ?thesis using hex_digit_in [of n] by (subst format_x.simps) simp
  next
    case False
    then show ?thesis using 1 hex_digit_in [of "n mod 16"] by (subst format_x.simps) simp
  qed
qed

lemma format_02x_hex: "set (format_02x n) \<subseteq> set ''0123456789abcdef''"
  using format_x_hex [of n] by (auto simp: format_02x_def Let_def)

lemma well_escaped_hex:
  "set hs \<subseteq> set ''0123456789abcdef'' \<Longrightarrow> well_escaped (hs @ s) = well_escaped s"
proof (induction hs)
  case Nil
  then show ?case by simp
next
  case (Cons h hs)
  then have "h \<noteq> BSL \<and> h \<noteq> DQ \<and> h \<noteq> LF \<and> h \<noteq> CR" by auto
  then have "well_escaped (h # (hs @ s)) = well_escaped (hs @ s)"
    by (simp add: well_escaped_plain)
  with Cons show ?case by simp
qed

lemma simple_char_plain:
  assumes "c \<in> SIMPLE_CHARS" and "ESCAPES c = None"
  shows "char_of c \<noteq> BSL \<and> char_of c \<noteq> DQ \<and> char_of c \<noteq> LF \<and> (char_of c :: char) \<noteq> CR"
proof -
  from assms(1) have b: "32 \<le> c \<and> c \<le> 126" by (rule SIMPLE_CHARS_bounds)
  then have lt: "c < 256" by simp
  from assms(2) have ne: "c \<noteq> 34 \<and> c \<noteq> 92" by (simp add: ESCAPES_None)
  show ?thesis using char_of_inj_small [OF lt] b ne by fastforce
qed

lemma well_escaped_go_str_char: "well_escaped (go_str_char c @ s) = well_escaped s"
proof (cases "ESCAPES c")
  case (Some e)
  then show ?thesis using ESCAPES_cases [OF Some] by (auto simp: go_str_char_def)
next
  case None
  show ?thesis
  proof (cases "c \<in> SIMPLE_CHARS")
    case True
    then show ?thesis using simple_char_plain [OF True None] None
      by (simp add: go_str_char_def well_escaped_plain)
  next
    case False
    have "well_escaped (BSL # CHR ''x'' # (format_02x c @ s)) = well_escaped (format_02x c @ s)"
      by simp
    then show ?thesis using False None well_escaped_hex [OF format_02x_hex]
      by (simp add: go_str_char_def)
  qed
qed

lemma well_escaped_body: "well_escaped (concat (map go_str_char cs))"
proof (induction cs)
  case Nil
  then show ?case by simp
next
  case (Cons c cs)
  then show ?case using well_escaped_go_str_char [of c "concat (map go_str_char cs)"] by simp
qed

lemma go_str_char_no_break: "LF \<notin> set (go_str_char c) \<and> CR \<notin> set (go_str_char c)"
proof (cases "ESCAPES c")
  case (Some e)
  then show ?thesis using ESCAPES_cases [OF Some] by (auto simp: go_str_char_def)
next
  case None
  show ?thesis
  proof (cases "c \<in> SIMPLE_CHARS")
    case True
    then show ?thesis using simple_char_plain [OF True None] None
      by (auto simp: go_str_char_def)
  next
    case False
    then show ?thesis using None format_02x_hex [of c]
      by (auto simp: go_str_char_def)
  qed
qed

lemma body_no_break:
  "LF \<notin> set (concat (map go_str_char cs)) \<and> CR \<notin> set (concat (map go_str_char cs))"
  using go_str_char_no_break by auto

lemma go_str_char_spelled:
  "go_str_char c =
     (if c = 9 then [BSL, CHR ''t'']
      else if c = 13 then [BSL, CHR ''r'']
      else if c = 10 then [BSL, CHR ''n'']
      else if c = 34 then [BSL, DQ]
      else if c = 92 then [BSL, BSL]
      else if 32 \<le> c \<and> c \<le> 126 then [char_of c]
      else [BSL, CHR ''x''] @ format_02x c)"
proof (cases "ESCAPES c")
  case None
  then have "c \<notin> {9, 10, 13, 34, 92}" by (simp add: ESCAPES_None)
  moreover have "c \<in> SIMPLE_CHARS \<longleftrightarrow> 32 \<le> c \<and> c \<le> 126"
    using SIMPLE_CHARS_range [of c] SIMPLE_CHARS_bounds [of c] by blast
  ultimately show ?thesis using None by (simp add: go_str_char_def)
next
  case (Some e)
  then show ?thesis by (auto simp: go_str_char_def ESCAPES_def split: if_splits)
qed

lemma hex_val_hex_digit: "hex_val (hex_digit d) = Some (d mod 16)"
proof -
  have "list_all (\<lambda>k. hex_val (''0123456789abcdef'' ! k) = Some k) [0..<16]"
    by (simp add: upt_conv_Cons hex_val_def)
  moreover have "0 \<le> d mod 16" "d mod 16 < 16" by simp_all
  ultimately have "hex_val (''0123456789abcdef'' ! (d mod 16)) = Some (d mod 16)"
    by (rule range_list_all)
  then show ?thesis by (simp add: hex_digit_def)
qed

lemma format_x_digits: "list_all (\<lambda>h. hex_val h \<noteq> None) (format_x n)"
proof (induction n rule: format_x.induct)
  case (1 n)
  show ?case
  proof (cases "n < 16")
    case True
    then show ?thesis by (subst format_x.simps) (simp add: hex_val_hex_digit)
  next
    case False
    then show ?thesis using 1 by (subst format_x.simps) (simp add: hex_val_hex_digit)
  qed
qed

lemma format_x_value: "foldl (\<lambda>a h. 16 * a + the (hex_val h)) 0 (format_x n) = n"
proof (induction n rule: format_x.induct)
  case (1 n)
  show ?case
  proof (cases "n < 16")
    case True
    then show ?thesis by (subst format_x.simps) (simp add: hex_val_hex_digit)
  next
    case False
    then show ?thesis using 1 by (subst format_x.simps) (simp add: hex_val_hex_digit)
  qed
qed

lemma format_x_nonempty: "format_x n \<noteq> []"
  by (subst format_x.simps) simp

lemma hex_val_zero: "hex_val (CHR ''0'') = Some 0"
  by (simp add: hex_val_def)

lemma foldl_zeros:
  "foldl (\<lambda>a h. 16 * a + the (hex_val h)) 0 (replicate k (CHR ''0'')) = 0"
  by (induction k) (simp_all add: hex_val_zero)

lemma format_02x_number: "2 \<le> length (format_02x n) \<and> hex_number (format_02x n) = Some n"
proof -
  have "list_all (\<lambda>h. hex_val h \<noteq> None) (replicate (2 - length (format_x n)) (CHR ''0''))"
    by (simp add: list_all_iff hex_val_zero)
  moreover have "2 \<le> 2 - length (format_x n) + length (format_x n)" by arith
  ultimately show ?thesis
    using format_x_digits [of n] format_x_value [of n] format_x_nonempty [of n]
    by (simp add: format_02x_def hex_number_def Let_def foldl_zeros)
qed

text \<open>
  Claim C10. For every input string, \<open>go_str\<close> returns a double quote, an interior and
  a double quote, and the interior is the concatenation, character by character, of:
  the two-character escape for tab, carriage return, line feed, double quote and
  backslash; the character itself for every other character from space to tilde; and
  backslash, \<open>x\<close> and the code in hexadecimal for every character left. The escape table
  wins over the pass-through set: double quote (34) and backslash (92) lie between
  space (32) and tilde (126) and are escaped all the same. The interior is well escaped
  (no raw double quote, no raw backslash) and holds no line feed and no carriage return
  at all, so the result is one closed literal on one line. The hexadecimal digits of an
  escape are at least two and denote the code of the character.
\<close>

theorem go_str_closed_literal:
  "(\<exists>body.
      body = concat (map (\<lambda>c.
               if c = 9 then [BSL, CHR ''t'']
               else if c = 13 then [BSL, CHR ''r'']
               else if c = 10 then [BSL, CHR ''n'']
               else if c = 34 then [BSL, DQ]
               else if c = 92 then [BSL, BSL]
               else if 32 \<le> c \<and> c \<le> 126 then [char_of c]
               else [BSL, CHR ''x''] @ format_02x c) value) \<and>
      go_str value = DQ # body @ [DQ] \<and>
      well_escaped body \<and> LF \<notin> set body \<and> CR \<notin> set body) \<and>
   2 \<le> length (format_02x n) \<and> hex_number (format_02x n) = Some n"
proof -
  have "go_str_char = (\<lambda>c.
               if c = 9 then [BSL, CHR ''t'']
               else if c = 13 then [BSL, CHR ''r'']
               else if c = 10 then [BSL, CHR ''n'']
               else if c = 34 then [BSL, DQ]
               else if c = 92 then [BSL, BSL]
               else if 32 \<le> c \<and> c \<le> 126 then [char_of c]
               else [BSL, CHR ''x''] @ format_02x c)"
    by (rule ext) (rule go_str_char_spelled)
  then show ?thesis
    using go_str_concat [of "value"] well_escaped_body [of "value"] body_no_break [of "value"]
      format_02x_number [of n]
    by simp
qed

theorem go_str_closed_literal_witness:
  "go_str [97, 34, 92, 10, 233, 955, 32, 7] =
     [DQ] @ ''a'' @ [BSL, DQ] @ [BSL, BSL] @ [BSL, CHR ''n''] @ [BSL] @ ''xe9'' @
     [BSL] @ ''x3bb'' @ '' '' @ [BSL] @ ''x07'' @ [DQ] \<and>
   hex_number (format_02x 233) = Some 233"
proof -
  have f: "format_02x 233 = ''e9''" "format_02x 955 = ''3bb''" "format_02x 7 = ''07''"
    by (simp_all add: format_02x_def hex_digit_def format_x.simps)
  from go_str_closed_literal [of "[97, 34, 92, 10, 233, 955, 32, 7]" 233]
  show ?thesis by (simp add: f char_of_def bit_Suc_0_iff)
qed

subsection \<open>The literal reads back as the string\<close>

lemma unescape_go_str_char:
  assumes "(32 \<le> c \<and> c \<le> 126) \<or> c \<in> {9, 10, 13}"
  shows "unescape (go_str_char c @ s) = map_option ((#) c) (unescape s)"
proof (cases "ESCAPES c")
  case (Some e)
  then have "c \<in> {9, 10, 13, 34, 92}" using ESCAPES_None [of c] by auto
  then show ?thesis by (auto simp: go_str_char_def ESCAPES_def)
next
  case None
  then have ne: "c \<notin> {9, 10, 13, 34, 92}" by (simp add: ESCAPES_None)
  with assms have b: "32 \<le> c" "c \<le> 126" by auto
  then have mem: "c \<in> SIMPLE_CHARS" by (rule SIMPLE_CHARS_range)
  from b have lt: "c < 256" by simp
  have plain: "char_of c \<noteq> BSL \<and> char_of c \<noteq> DQ \<and> (char_of c :: char) \<noteq> LF"
    using char_of_inj_small [OF lt] ne by fastforce
  have rt: "of_char (char_of c :: char) = c" using lt by simp
  show ?thesis using None mem plain rt by (simp add: go_str_char_def)
qed

lemma unescape_body:
  "\<forall>c\<in>set cs. (32 \<le> c \<and> c \<le> 126) \<or> c \<in> {9, 10, 13} \<Longrightarrow>
     unescape (concat (map go_str_char cs)) = Some cs"
proof (induction cs)
  case Nil
  then show ?case by simp
next
  case (Cons c cs)
  then have "unescape (go_str_char c @ concat (map go_str_char cs)) =
      map_option ((#) c) (unescape (concat (map go_str_char cs)))"
    by (intro unescape_go_str_char) simp
  with Cons show ?case by simp
qed

text \<open>
  Claim C8. For a string made only of printable ASCII characters (codes 33 to 126), spaces
  and the five escaped characters (tab, carriage return, line feed, double quote,
  backslash), \<open>go_str\<close> is lossless: the result is a double quote, an interior and a
  double quote, and reading the interior back by the standard escape meanings gives the
  original string.
\<close>

theorem go_str_lossless:
  assumes "\<forall>c\<in>set value. (32 \<le> c \<and> c \<le> 126) \<or> c \<in> {9, 10, 13}"
  shows "\<exists>body. go_str value = DQ # body @ [DQ] \<and> unescape body = Some value"
  using go_str_concat unescape_body [OF assms] by blast

theorem go_str_lossless_witness:
  "\<exists>body. go_str [72, 105, 32, 34, 92, 9, 13, 10, 126] = DQ # body @ [DQ] \<and>
      unescape body = Some [72, 105, 32, 34, 92, 9, 13, 10, 126]"
proof -
  have h: "\<forall>c\<in>set [72, 105, 32, 34, 92, 9, 13, 10, 126].
      (32 \<le> c \<and> c \<le> 126) \<or> c \<in> {9, 10, 13 :: nat}"
    by simp
  show ?thesis using go_str_lossless [OF h] .
qed

section \<open>Properties of the \<open>ImportVisitor\<close>\<close>

lemma visitor_resolve_import_cases:
  "visitor_resolve_import isfile path ln n self =
     (if truthy (fst (resolve_import isfile path n))
      then Inr (Import_init (the (fst (resolve_import isfile path n))) False)
      else Inl (ImportError (CompileError_msg ln (''no such module: '' @ n))),
      self\<lparr>lookups := lookups self @ [n]\<rparr>)"
  by (simp add: visitor_resolve_import_def path_resolve_import_def split: prod.splits)

subsection \<open>Evaluation on the example file system\<close>

lemmas example_eval = resolve_import_def truthy_def path_main find_script_def
  path_join_def startswith_def endswith_def example_files_def dots_to_sep_def Let_def

lemma example_resolve:
  "resolve_import example_files example_path ''a.b.c'' =
     (Some ''a.b.c'', Some ''/go/src/__python__/a/b/c.py'')"
  "resolve_import example_files example_path ''a'' =
     (Some ''a'', Some ''/go/src/__python__/a/__init__.py'')"
  "resolve_import example_files example_path ''pkg'' =
     (Some ''pkg'', Some ''/go/src/__python__/pkg/__init__.py'')"
  "resolve_import example_files example_path ''pkg.submod'' =
     (Some ''pkg.submod'', Some ''/go/src/__python__/pkg/submod.py'')"
  "resolve_import example_files example_path ''pkg.CONST'' = (None, None)"
  "resolve_import example_files example_path ''pkg.f'' = (None, None)"
  by (simp_all add: example_eval)

subsection \<open>Native from-imports\<close>

lemma native_bindings_loop_map:
  "native_bindings_loop nms imp =
     imp\<lparr>bindings := bindings imp @
       map (\<lambda>a. Binding MEMBER (asname_or_name a) (Member (alias_name a))) nms\<rparr>"
  by (induction nms arbitrary: imp) (simp_all add: add_binding_def)

lemma native_not_future:
  "startswith m NATIVE_MODULE_PREFIX \<Longrightarrow> m \<noteq> ''__future__''"
  by (auto simp: startswith_def NATIVE_MODULE_PREFIX_def)

lemma asname_or_name_cases:
  "asname_or_name a =
     (case asname a of Some s \<Rightarrow> if s \<noteq> [] then s else alias_name a | None \<Rightarrow> alias_name a)"
  by (simp add: asname_or_name_def truthy_def split: option.splits)

text \<open>
  Claim C6. For a from-import whose module begins with \<open>__go__.\<close> and that has no
  wildcard, \<open>visit_ImportFrom\<close> appends exactly one import: its name is the module
  without the prefix, it is native, and it carries one member binding per imported name,
  in the order of the statement, from the \<open>asname\<close> (the name itself when there is none)
  to the name. The resolver is not called: the result is the same for every path object
  and every file system, and the record of resolver calls is unchanged.
\<close>

theorem visit_ImportFrom_native:
  assumes "startswith (module node) NATIVE_MODULE_PREFIX"
    and "\<not> list_ex (\<lambda>a. alias_name a = ''*'') (names node)"
  shows "visit_ImportFrom isfile path node self =
     (self\<lparr>imports := imports self @
        [\<lparr>name = drop (length ''__go__.'') (module node), is_native = True,
          bindings = map (\<lambda>a. Binding MEMBER
                       (case asname a of
                          Some s \<Rightarrow> if s \<noteq> [] then s else alias_name a
                        | None \<Rightarrow> alias_name a)
                       (Member (alias_name a))) (names node)\<rparr>]\<rparr>,
      None) \<and>
     lookups (fst (visit_ImportFrom isfile path node self)) = lookups self"
  using assms native_not_future [OF assms(1)]
  by (simp add: visit_ImportFrom_def native_bindings_loop_map Import_init_def Let_def
      asname_or_name_cases NATIVE_MODULE_PREFIX_def)

theorem visit_ImportFrom_native_witness:
  "visit_ImportFrom example_files example_path
     \<lparr>lineno = Some 7, names = [Alias ''Bar'' (Some ''Baz'')], module = ''__go__.foo''\<rparr>
     ImportVisitor_init =
     (\<lparr>imports = [\<lparr>name = ''foo'', is_native = True,
                    bindings = [Binding MEMBER ''Baz'' (Member ''Bar'')]\<rparr>],
       lookups = []\<rparr>, None)"
proof -
  let ?node = "\<lparr>lineno = Some 7, names = [Alias ''Bar'' (Some ''Baz'')], module = ''__go__.foo''\<rparr>"
  have h1: "startswith (module ?node) NATIVE_MODULE_PREFIX"
    by (simp add: startswith_def NATIVE_MODULE_PREFIX_def)
  have h2: "\<not> list_ex (\<lambda>a. alias_name a = ''*'') (names ?node)" by simp
  show ?thesis
    using visit_ImportFrom_native [OF h1 h2, of example_files example_path ImportVisitor_init]
    by (simp add: ImportVisitor_init_def)
qed

subsection \<open>Rejected statements\<close>

lemma visit_Import_loop_native:
  assumes "list_ex (\<lambda>a. startswith (alias_name a) NATIVE_MODULE_PREFIX) nms"
  shows "\<exists>self' msg. visit_Import_loop isfile path ln nms self =
            (self', Some (ImportError (CompileError_msg ln msg)))"
  using assms
proof (induction nms arbitrary: self)
  case Nil
  then show ?case by simp
next
  case (Cons a rest)
  show ?case
  proof (cases "startswith (alias_name a) NATIVE_MODULE_PREFIX")
    case True
    then show ?thesis by auto
  next
    case False
    with Cons.prems have r: "list_ex (\<lambda>a. startswith (alias_name a) NATIVE_MODULE_PREFIX) rest"
      by simp
    show ?thesis
    proof (cases "truthy (fst (resolve_import isfile path (alias_name a)))")
      case True
      then show ?thesis using False Cons.IH [OF r]
        by (simp add: visitor_resolve_import_cases)
    next
      case nf: False
      then show ?thesis using False
        by (auto simp: visitor_resolve_import_cases)
    qed
  qed
qed

text \<open>
  Claim C7. A from-import with a wildcard among its names, whatever its module, and a
  plain import with a name that begins with \<open>__go__.\<close> both end in an \<open>ImportError\<close>
  whose message is built by \<open>CompileError\<close> from the statement node, hence begins with
  \<open>line N:\<close> for a node at line \<open>N\<close>. The wildcard is rejected before anything else is
  done; a plain import whose first name is native is rejected before anything else is
  done. No such statement returns normally.
\<close>

theorem import_errors:
  "(list_ex (\<lambda>a. alias_name a = ''*'') (names fnode) \<longrightarrow>
      visit_ImportFrom isfile path fnode self =
        (self, Some (ImportError (CompileError_msg (lineno fnode)
           (''wildcard member import is not implemented: from '' @ module fnode @ '' import *''))))) \<and>
   (list_ex (\<lambda>a. startswith (alias_name a) ''__go__.'') (names inode) \<longrightarrow>
      (\<exists>self' msg. visit_Import isfile path inode self =
         (self', Some (ImportError (CompileError_msg (lineno inode) msg))))) \<and>
   (names inode \<noteq> [] \<and> startswith (alias_name (hd (names inode))) ''__go__.'' \<longrightarrow>
      visit_Import isfile path inode self =
        (self, Some (ImportError (CompileError_msg (lineno inode) native_syntax_msg)))) \<and>
   CompileError_msg (Some n) msg = ''line '' @ str_int n @ '': '' @ msg"
proof (intro conjI)
  show "list_ex (\<lambda>a. alias_name a = ''*'') (names fnode) \<longrightarrow>
      visit_ImportFrom isfile path fnode self =
        (self, Some (ImportError (CompileError_msg (lineno fnode)
           (''wildcard member import is not implemented: from '' @ module fnode @ '' import *''))))"
    by (simp add: visit_ImportFrom_def wildcard_msg_def)
  show "list_ex (\<lambda>a. startswith (alias_name a) ''__go__.'') (names inode) \<longrightarrow>
      (\<exists>self' msg. visit_Import isfile path inode self =
         (self', Some (ImportError (CompileError_msg (lineno inode) msg))))"
    using visit_Import_loop_native [of "names inode" isfile path "lineno inode" self]
    unfolding visit_Import_def NATIVE_MODULE_PREFIX_def by blast
  show "names inode \<noteq> [] \<and> startswith (alias_name (hd (names inode))) ''__go__.'' \<longrightarrow>
      visit_Import isfile path inode self =
        (self, Some (ImportError (CompileError_msg (lineno inode) native_syntax_msg)))"
    by (cases "names inode") (simp_all add: visit_Import_def NATIVE_MODULE_PREFIX_def)
  show "CompileError_msg (Some n) msg = ''line '' @ str_int n @ '': '' @ msg"
    by (simp add: CompileError_msg_def)
qed

theorem import_errors_witness:
  "visit_ImportFrom example_files example_path
     \<lparr>lineno = Some 4, names = [Alias ''*'' None], module = ''__go__.foo''\<rparr> ImportVisitor_init =
     (ImportVisitor_init,
      Some (ImportError
        ''line 4: wildcard member import is not implemented: from __go__.foo import *'')) \<and>
   visit_Import example_files example_path
     \<lparr>lineno = Some 5, names = [Alias ''__go__.foo'' None]\<rparr> ImportVisitor_init =
     (ImportVisitor_init,
      Some (ImportError (''line 5: for native imports use '' @ [DQ] @
        ''from __go__.xyz import ...'' @ [DQ] @ '' syntax'')))"
proof -
  let ?fnode = "\<lparr>lineno = Some 4, names = [Alias ''*'' None], module = ''__go__.foo''\<rparr>"
  let ?inode = "\<lparr>lineno = Some 5, names = [Alias ''__go__.foo'' None]\<rparr>"
  have h1: "list_ex (\<lambda>a. alias_name a = ''*'') (names ?fnode)" by simp
  have h2: "names ?inode \<noteq> [] \<and> startswith (alias_name (hd (names ?inode))) ''__go__.''"
    by (simp add: startswith_def)
  have d: "str_int 4 = ''4''" "str_int 5 = ''5''"
    by (simp_all add: str_int_def str_nat.simps dec_digit_def)
  note t = import_errors [where fnode = ?fnode and inode = ?inode and isfile = example_files
      and path = example_path and self = ImportVisitor_init]
  from t h1 have a: "visit_ImportFrom example_files example_path ?fnode ImportVisitor_init =
        (ImportVisitor_init, Some (ImportError (CompileError_msg (lineno ?fnode)
           (''wildcard member import is not implemented: from '' @ module ?fnode @ '' import *''))))"
    by blast
  from t h2 have b: "visit_Import example_files example_path ?inode ImportVisitor_init =
        (ImportVisitor_init, Some (ImportError (CompileError_msg (lineno ?inode) native_syntax_msg)))"
    by blast
  from a b d show ?thesis by (simp add: CompileError_msg_def native_syntax_msg_def)
qed

subsection \<open>Plain imports\<close>

lemma str_split_nonempty: "str_split c s \<noteq> []"
  by (induction s) (auto split: list.splits)

lemma length_str_split: "int (length (str_split c s)) = str_count s c + 1"
proof (induction s)
  case Nil
  then show ?case by (simp add: str_count_def)
next
  case (Cons x xs)
  then show ?case using str_split_nonempty [of c xs]
    by (auto simp: str_count_def split: list.splits)
qed

lemma bind_module_aliased:
  "truthy (asname a) \<Longrightarrow>
     bind_module a (Import_init full False) =
       \<lparr>name = full, is_native = False,
        bindings = [Binding MODULE (the (asname a)) (Index (str_count full (CHR ''.'')))]\<rparr>"
  by (simp add: bind_module_def Import_init_def add_binding_def)

lemma bind_module_plain:
  "\<not> truthy (asname a) \<Longrightarrow>
     bind_module a (Import_init full False) =
       \<lparr>name = full, is_native = False,
        bindings = [Binding MODULE (last (str_split (CHR ''.'') (alias_name a)))
          (Index (str_count full (CHR ''.'') - str_count (alias_name a) (CHR ''.'')))]\<rparr>"
  by (simp add: bind_module_def Import_init_def add_binding_def Let_def length_str_split)

lemma visit_Import_loop_ok:
  assumes "\<forall>a\<in>set nms. \<not> startswith (alias_name a) NATIVE_MODULE_PREFIX \<and>
             truthy (fst (resolve_import isfile path (alias_name a)))"
  shows "visit_Import_loop isfile path ln nms self =
     (self\<lparr>imports := imports self @
         map (\<lambda>a. bind_module a
                (Import_init (the (fst (resolve_import isfile path (alias_name a)))) False)) nms,
       lookups := lookups self @ map alias_name nms\<rparr>, None)"
  using assms
proof (induction nms arbitrary: self)
  case Nil
  then show ?case by simp
next
  case (Cons a rest)
  then show ?case by (simp add: visitor_resolve_import_cases)
qed

text \<open>
  Claim C1, as the code has it by design. For a plain import whose names are not
  native and all resolve, \<open>visit_Import\<close> appends exactly one import per name, in order,
  named by the resolved absolute name, not native, with exactly one module binding.
  With an alias the binding is from the alias and its value is the number of dots of
  the absolute name. Without an alias its value is the number of dots of the absolute
  name minus the number of dots of the written name; and for a written name without a
  dot the local name is that name. (Which component of a dotted written name becomes
  the local name is not part of this statement.)
\<close>

theorem visit_Import_bindings:
  assumes "\<forall>a\<in>set (names node). \<not> startswith (alias_name a) ''__go__.'' \<and>
             truthy (fst (resolve_import isfile path (alias_name a)))"
  shows "\<exists>imps.
     visit_Import isfile path node self =
       (self\<lparr>imports := imports self @ imps,
             lookups := lookups self @ map alias_name (names node)\<rparr>, None) \<and>
     length imps = length (names node) \<and>
     (\<forall>i<length (names node).
        name (imps ! i) = the (fst (resolve_import isfile path (alias_name (names node ! i)))) \<and>
        \<not> is_native (imps ! i) \<and>
        (truthy (asname (names node ! i)) \<longrightarrow>
           bindings (imps ! i) =
             [Binding MODULE (the (asname (names node ! i)))
                (Index (str_count (name (imps ! i)) (CHR ''.'')))]) \<and>
        (\<not> truthy (asname (names node ! i)) \<longrightarrow>
           (\<exists>local.
              bindings (imps ! i) =
                [Binding MODULE local
                   (Index (str_count (name (imps ! i)) (CHR ''.'') -
                           str_count (alias_name (names node ! i)) (CHR ''.'')))] \<and>
              (CHR ''.'' \<notin> set (alias_name (names node ! i)) \<longrightarrow>
                 local = alias_name (names node ! i)))))"
proof -
  let ?mk = "\<lambda>a. bind_module a
                (Import_init (the (fst (resolve_import isfile path (alias_name a)))) False)"
  have run: "visit_Import isfile path node self =
       (self\<lparr>imports := imports self @ map ?mk (names node),
             lookups := lookups self @ map alias_name (names node)\<rparr>, None)"
    unfolding visit_Import_def
    by (rule visit_Import_loop_ok) (use assms in \<open>simp add: NATIVE_MODULE_PREFIX_def\<close>)
  let ?ok = "\<lambda>imp a.
        name imp = the (fst (resolve_import isfile path (alias_name a))) \<and>
        \<not> is_native imp \<and>
        (truthy (asname a) \<longrightarrow>
           bindings imp =
             [Binding MODULE (the (asname a)) (Index (str_count (name imp) (CHR ''.'')))]) \<and>
        (\<not> truthy (asname a) \<longrightarrow>
           (\<exists>local.
              bindings imp =
                [Binding MODULE local
                   (Index (str_count (name imp) (CHR ''.'') -
                           str_count (alias_name a) (CHR ''.'')))] \<and>
              (CHR ''.'' \<notin> set (alias_name a) \<longrightarrow> local = alias_name a)))"
  have each: "?ok (?mk a) a" for a
  proof (cases "truthy (asname a)")
    case True
    then show ?thesis by (simp add: bind_module_aliased)
  next
    case False
    then show ?thesis by (simp add: bind_module_plain str_split_single)
  qed
  show ?thesis
  proof (intro exI [of _ "map ?mk (names node)"] conjI, goal_cases)
    case 1
    show ?case by (rule run)
  next
    case 2
    show ?case by simp
  next
    case 3
    show ?case
    proof (intro allI impI)
      fix i
      assume "i < length (names node)"
      then have e: "map ?mk (names node) ! i = ?mk (names node ! i)" by simp
      show "?ok (map ?mk (names node) ! i) (names node ! i)"
        unfolding e by (rule each)
    qed
  qed
qed

theorem visit_Import_bindings_witness:
  "\<exists>imps. visit_Import example_files example_path
       \<lparr>lineno = Some 1, names = [Alias ''a.b.c'' (Some ''x''), Alias ''a'' None]\<rparr>
       ImportVisitor_init =
       (\<lparr>imports = imps, lookups = [''a.b.c'', ''a'']\<rparr>, None) \<and>
     length imps = 2 \<and>
     name (imps ! 0) = ''a.b.c'' \<and> bindings (imps ! 0) = [Binding MODULE ''x'' (Index 2)] \<and>
     name (imps ! 1) = ''a'' \<and> bindings (imps ! 1) = [Binding MODULE ''a'' (Index 0)]"
proof -
  let ?node = "\<lparr>lineno = Some 1, names = [Alias ''a.b.c'' (Some ''x''), Alias ''a'' None]\<rparr>"
  have h: "\<forall>a\<in>set (names ?node). \<not> startswith (alias_name a) ''__go__.'' \<and>
             truthy (fst (resolve_import example_files example_path (alias_name a)))"
    by (simp add: startswith_def example_resolve truthy_def)
  from visit_Import_bindings [OF h, of ImportVisitor_init]
  obtain imps where
    run: "visit_Import example_files example_path ?node ImportVisitor_init =
       (ImportVisitor_init\<lparr>imports := imports ImportVisitor_init @ imps,
             lookups := lookups ImportVisitor_init @ map alias_name (names ?node)\<rparr>, None)"
    and len: "length imps = length (names ?node)"
    and each: "\<forall>i<length (names ?node).
        name (imps ! i) = the (fst (resolve_import example_files example_path (alias_name (names ?node ! i)))) \<and>
        \<not> is_native (imps ! i) \<and>
        (truthy (asname (names ?node ! i)) \<longrightarrow>
           bindings (imps ! i) =
             [Binding MODULE (the (asname (names ?node ! i)))
                (Index (str_count (name (imps ! i)) (CHR ''.'')))]) \<and>
        (\<not> truthy (asname (names ?node ! i)) \<longrightarrow>
           (\<exists>local.
              bindings (imps ! i) =
                [Binding MODULE local
                   (Index (str_count (name (imps ! i)) (CHR ''.'') -
                           str_count (alias_name (names ?node ! i)) (CHR ''.'')))] \<and>
              (CHR ''.'' \<notin> set (alias_name (names ?node ! i)) \<longrightarrow>
                 local = alias_name (names ?node ! i))))"
    by blast
  from each [rule_format, of 0] have i0:
    "name (imps ! 0) = ''a.b.c'' \<and> bindings (imps ! 0) = [Binding MODULE ''x'' (Index 2)]"
    by (simp add: example_resolve truthy_def str_count_def)
  from each [rule_format, of 1] have i1:
    "name (imps ! 1) = ''a'' \<and> bindings (imps ! 1) = [Binding MODULE ''a'' (Index 0)]"
    by (auto simp: example_resolve truthy_def str_count_def)
  from run len i0 i1 show ?thesis by (simp add: ImportVisitor_init_def)
qed

text \<open>
  Claim C1 as stated fails: for \<open>import a.b.c as x\<close>, resolved to \<open>a.b.c\<close>, the value of
  the binding is 2, the number of dots of the absolute name, and not 0.
\<close>

theorem visit_Import_strip_count_counterexample:
  "visit_Import example_files example_path
     \<lparr>lineno = Some 1, names = [Alias ''a.b.c'' (Some ''x'')]\<rparr> ImportVisitor_init =
     (\<lparr>imports = [\<lparr>name = ''a.b.c'', is_native = False,
                    bindings = [Binding MODULE ''x'' (Index 2)]\<rparr>],
       lookups = [''a.b.c'']\<rparr>, None) \<and>
   bindings (hd (imports (fst (visit_Import example_files example_path
     \<lparr>lineno = Some 1, names = [Alias ''a.b.c'' (Some ''x'')]\<rparr> ImportVisitor_init)))) \<noteq>
     [Binding MODULE ''x'' (Index 0)]"
  by (simp add: visit_Import_def visitor_resolve_import_cases example_resolve truthy_def
      startswith_def NATIVE_MODULE_PREFIX_def bind_module_def Import_init_def add_binding_def
      str_count_def ImportVisitor_init_def)

text \<open>The statement \<open>import a.b.c\<close> on the same path, for the record.\<close>

lemma visit_Import_dotted_example:
  "visit_Import example_files example_path
     \<lparr>lineno = Some 1, names = [Alias ''a.b.c'' None]\<rparr> ImportVisitor_init =
     (\<lparr>imports = [\<lparr>name = ''a.b.c'', is_native = False,
                    bindings = [Binding MODULE ''c'' (Index 0)]\<rparr>],
       lookups = [''a.b.c'']\<rparr>, None)"
  by (simp add: visit_Import_def visitor_resolve_import_cases example_resolve truthy_def
      startswith_def NATIVE_MODULE_PREFIX_def bind_module_def Import_init_def add_binding_def
      str_count_def ImportVisitor_init_def Let_def)

subsection \<open>From-imports of members and submodules\<close>

lemma visit_ImportFrom_loop_Cons:
  "visit_ImportFrom_loop isfile path ln m (a # rest) member_imp self =
     (let self1 = self\<lparr>lookups := lookups self @ [m @ ''.'' @ alias_name a]\<rparr> in
      if is_submodule isfile path m a
      then visit_ImportFrom_loop isfile path ln m rest member_imp
             (self1\<lparr>imports := imports self @ [submodule_import isfile path m a]\<rparr>)
      else
        (case member_imp of
           None \<Rightarrow>
             if truthy (fst (resolve_import isfile path m))
             then visit_ImportFrom_loop isfile path ln m rest (Some (length (imports self)))
                    (self1\<lparr>lookups := lookups self1 @ [m],
                           imports := imports self @
                             [\<lparr>name = the (fst (resolve_import isfile path m)), is_native = False,
                               bindings = [member_binding a]\<rparr>]\<rparr>)
             else (self1\<lparr>lookups := lookups self1 @ [m]\<rparr>,
                   Some (ImportError (CompileError_msg ln (''no such module: '' @ m))))
         | Some i \<Rightarrow>
             visit_ImportFrom_loop isfile path ln m rest (Some i)
               (self1\<lparr>imports := (imports self)
                  [i := (imports self ! i)\<lparr>bindings := bindings (imports self ! i) @
                          [member_binding a]\<rparr>]\<rparr>)))"
proof (cases "resolve_import isfile path (m @ ''.'' @ alias_name a)")
  case (Pair full_name script)
  show ?thesis
  proof (cases "truthy full_name")
    case True
    with Pair show ?thesis
      by (simp add: path_resolve_import_def is_submodule_def submodule_import_def Let_def
          Import_init_def add_binding_def)
  next
    case False
    with Pair show ?thesis
      by (simp add: path_resolve_import_def is_submodule_def Let_def visitor_resolve_import_cases
          Import_init_def add_binding_def member_binding_def split: option.splits)
  qed
qed

declare visit_ImportFrom_loop.simps(2) [simp del]

lemma loop_with_member:
  assumes "i < length (imports self)"
  shows "visit_ImportFrom_loop isfile path ln m nms (Some i) self =
     (self\<lparr>imports :=
         (imports self)[i := (imports self ! i)\<lparr>bindings := bindings (imports self ! i) @
            map member_binding (filter (\<lambda>a. \<not> is_submodule isfile path m a) nms)\<rparr>] @
         map (submodule_import isfile path m) (filter (is_submodule isfile path m) nms),
       lookups := lookups self @ map (\<lambda>a. m @ ''.'' @ alias_name a) nms\<rparr>, None)"
  using assms
proof (induction nms arbitrary: self)
  case Nil
  then show ?case by simp
next
  case (Cons a rest)
  show ?case
  proof (cases "is_submodule isfile path m a")
    case True
    then show ?thesis using Cons.prems
      by (simp add: visit_ImportFrom_loop_Cons Cons.IH list_update_append1 nth_append)
  next
    case False
    then show ?thesis using Cons.prems
      by (simp add: visit_ImportFrom_loop_Cons Cons.IH)
  qed
qed

lemma member_import_skip:
  "is_submodule isfile path m a \<Longrightarrow>
     member_import isfile path m (a # rest) = member_import isfile path m rest"
  by (simp add: member_import_def)

lemma spec_from_imports_Cons_sub:
  "is_submodule isfile path m a \<Longrightarrow>
     spec_from_imports isfile path m (a # rest) =
       submodule_import isfile path m a # spec_from_imports isfile path m rest"
proof -
  assume sub: "is_submodule isfile path m a"
  have same: "member_import isfile path m (a # rest) = member_import isfile path m rest"
    using sub by (rule member_import_skip)
  show ?thesis
  proof (cases "dropWhile (is_submodule isfile path m) rest")
    case Nil
    with sub show ?thesis by (simp add: spec_from_imports_def del: dropWhile_eq_Nil_conv)
  next
    case (Cons first_member later)
    with sub same show ?thesis by (simp add: spec_from_imports_def)
  qed
qed

lemma spec_from_lookups_Cons_sub:
  "is_submodule isfile path m a \<Longrightarrow>
     spec_from_lookups isfile path m (a # rest) =
       (m @ ''.'' @ alias_name a) # spec_from_lookups isfile path m rest"
  by (simp add: spec_from_lookups_def)

lemma loop_without_member:
  assumes "(\<forall>a\<in>set nms. is_submodule isfile path m a) \<or> truthy (fst (resolve_import isfile path m))"
  shows "visit_ImportFrom_loop isfile path ln m nms None self =
     (self\<lparr>imports := imports self @ spec_from_imports isfile path m nms,
           lookups := lookups self @ spec_from_lookups isfile path m nms\<rparr>, None)"
  using assms
proof (induction nms arbitrary: self)
  case Nil
  then show ?case by (simp add: spec_from_imports_def spec_from_lookups_def)
next
  case (Cons a rest)
  show ?case
  proof (cases "is_submodule isfile path m a")
    case True
    with Cons.prems have
      "(\<forall>a\<in>set rest. is_submodule isfile path m a) \<or> truthy (fst (resolve_import isfile path m))"
      by auto
    from Cons.IH [OF this] True show ?thesis
      by (simp add: visit_ImportFrom_loop_Cons spec_from_imports_Cons_sub
          spec_from_lookups_Cons_sub)
  next
    case False
    with Cons.prems have r: "truthy (fst (resolve_import isfile path m))" by auto
    show ?thesis using False r
      by (simp add: visit_ImportFrom_loop_Cons loop_with_member spec_from_imports_def
          spec_from_lookups_def member_import_def)
  qed
qed

lemma loop_member_unresolved:
  assumes "\<exists>a\<in>set nms. \<not> is_submodule isfile path m a"
    and "\<not> truthy (fst (resolve_import isfile path m))"
  shows "visit_ImportFrom_loop isfile path ln m nms None self =
     (self\<lparr>imports := imports self @
             map (submodule_import isfile path m) (takeWhile (is_submodule isfile path m) nms),
           lookups := lookups self @ spec_from_lookups isfile path m
             (takeWhile (is_submodule isfile path m) nms @
              [hd (dropWhile (is_submodule isfile path m) nms)])\<rparr>,
      Some (ImportError (CompileError_msg ln (''no such module: '' @ m))))"
  using assms
proof (induction nms arbitrary: self)
  case Nil
  then show ?case by simp
next
  case (Cons a rest)
  show ?case
  proof (cases "is_submodule isfile path m a")
    case True
    with Cons.prems have "\<exists>a\<in>set rest. \<not> is_submodule isfile path m a" by auto
    from Cons.IH [OF this Cons.prems(2)] True show ?thesis
      by (simp add: visit_ImportFrom_loop_Cons spec_from_lookups_Cons_sub)
  next
    case False
    then show ?thesis using Cons.prems(2)
      by (simp add: visit_ImportFrom_loop_Cons spec_from_lookups_def)
  qed
qed

lemma probe_not_module: "m @ ''.'' @ n \<noteq> m"
  by simp

lemma count_probes: "count_list (map (\<lambda>a. m @ ''.'' @ alias_name a) nms) m = 0"
  by (induction nms) simp_all

lemma count_spec_from_lookups: "count_list (spec_from_lookups isfile path m nms) m \<le> 1"
  using count_probes [of m]
  by (simp add: spec_from_lookups_def split: list.splits)

text \<open>
  Claim C4. For a from-import \<open>from m import ...\<close> that is not native, has no wildcard
  and is not the future pseudo-module:
  \<^item> when every name is a submodule, or \<open>m\<close> itself resolves, the visitor ends normally and
    has appended the imports of the specification: a standalone import with one module
    binding for each name \<open>n\<close> whose probe \<open>m.n\<close> resolves, and one import of \<open>m\<close>, standing
    where the first member was met, with one member binding per member in order;
  \<^item> when some name is a member and \<open>m\<close> does not resolve, the visit ends in an
    \<open>ImportError\<close> saying that there is no such module \<open>m\<close>;
  \<^item> in every case the resolver calls made by the visit hold \<open>m\<close> itself at most once.
\<close>

theorem visit_ImportFrom_members:
  assumes "\<not> list_ex (\<lambda>a. alias_name a = ''*'') (names node)"
    and "module node \<noteq> ''__future__''"
    and "\<not> startswith (module node) ''__go__.''"
  shows
   "((\<forall>a\<in>set (names node). is_submodule isfile path (module node) a) \<or>
     truthy (fst (resolve_import isfile path (module node))) \<longrightarrow>
       visit_ImportFrom isfile path node self =
         (self\<lparr>imports := imports self @
                  spec_from_imports isfile path (module node) (names node),
               lookups := lookups self @
                  spec_from_lookups isfile path (module node) (names node)\<rparr>, None)) \<and>
    ((\<exists>a\<in>set (names node). \<not> is_submodule isfile path (module node) a) \<and>
     \<not> truthy (fst (resolve_import isfile path (module node))) \<longrightarrow>
       (\<exists>self'. visit_ImportFrom isfile path node self =
          (self', Some (ImportError (CompileError_msg (lineno node)
                                       (''no such module: '' @ module node)))))) \<and>
    (\<exists>ls. lookups (fst (visit_ImportFrom isfile path node self)) = lookups self @ ls \<and>
          count_list ls (module node) \<le> 1)"
proof -
  have run: "visit_ImportFrom isfile path node self =
      visit_ImportFrom_loop isfile path (lineno node) (module node) (names node) None self"
    using assms by (simp add: visit_ImportFrom_def NATIVE_MODULE_PREFIX_def)
  let ?ok = "(\<forall>a\<in>set (names node). is_submodule isfile path (module node) a) \<or>
     truthy (fst (resolve_import isfile path (module node)))"
  have good: "?ok \<Longrightarrow> visit_ImportFrom isfile path node self =
         (self\<lparr>imports := imports self @
                  spec_from_imports isfile path (module node) (names node),
               lookups := lookups self @
                  spec_from_lookups isfile path (module node) (names node)\<rparr>, None)"
    unfolding run by (rule loop_without_member)
  have bad: "\<not> ?ok \<Longrightarrow> visit_ImportFrom isfile path node self =
     (self\<lparr>imports := imports self @
             map (submodule_import isfile path (module node))
               (takeWhile (is_submodule isfile path (module node)) (names node)),
           lookups := lookups self @ spec_from_lookups isfile path (module node)
             (takeWhile (is_submodule isfile path (module node)) (names node) @
              [hd (dropWhile (is_submodule isfile path (module node)) (names node))])\<rparr>,
      Some (ImportError (CompileError_msg (lineno node) (''no such module: '' @ module node))))"
    unfolding run by (rule loop_member_unresolved) auto
  have trace: "\<exists>ls. lookups (fst (visit_ImportFrom isfile path node self)) = lookups self @ ls \<and>
          count_list ls (module node) \<le> 1"
  proof (cases ?ok)
    case True
    show ?thesis unfolding good [OF True] using count_spec_from_lookups by auto
  next
    case False
    show ?thesis unfolding bad [OF False] using count_spec_from_lookups by auto
  qed
  from good bad trace show ?thesis by blast
qed

theorem visit_ImportFrom_members_witness:
  "visit_ImportFrom example_files example_path
     \<lparr>lineno = Some 2,
      names = [Alias ''CONST'' None, Alias ''submod'' None, Alias ''f'' (Some ''g'')],
      module = ''pkg''\<rparr> ImportVisitor_init =
     (\<lparr>imports =
         [\<lparr>name = ''pkg'', is_native = False,
           bindings = [Binding MEMBER ''CONST'' (Member ''CONST''),
                       Binding MEMBER ''g'' (Member ''f'')]\<rparr>,
          \<lparr>name = ''pkg.submod'', is_native = False,
           bindings = [Binding MODULE ''submod'' (Index 1)]\<rparr>],
       lookups = [''pkg.CONST'', ''pkg'', ''pkg.submod'', ''pkg.f'']\<rparr>, None)"
proof -
  let ?node = "\<lparr>lineno = Some 2,
      names = [Alias ''CONST'' None, Alias ''submod'' None, Alias ''f'' (Some ''g'')],
      module = ''pkg''\<rparr>"
  have h1: "\<not> list_ex (\<lambda>a. alias_name a = ''*'') (names ?node)" by simp
  have h2: "module ?node \<noteq> ''__future__''" by simp
  have h3: "\<not> startswith (module ?node) ''__go__.''" by (simp add: startswith_def)
  have h4: "truthy (fst (resolve_import example_files example_path (module ?node)))"
    by (simp add: example_resolve truthy_def)
  from visit_ImportFrom_members [OF h1 h2 h3, of example_files example_path ImportVisitor_init] h4
  have "visit_ImportFrom example_files example_path ?node ImportVisitor_init =
         (ImportVisitor_init\<lparr>imports := imports ImportVisitor_init @
                  spec_from_imports example_files example_path (module ?node) (names ?node),
               lookups := lookups ImportVisitor_init @
                  spec_from_lookups example_files example_path (module ?node) (names ?node)\<rparr>, None)"
    by blast
  then show ?thesis
    by (simp add: spec_from_imports_def spec_from_lookups_def is_submodule_def
        submodule_import_def member_import_def member_binding_def asname_or_name_def
        example_resolve truthy_def ImportVisitor_init_def str_count_def)
qed

end
